theory Spec2Isabelle
  imports Complex_Main "HOL-Library.Sublist" "HOL-Library.List_Lexorder" "HOL-Library.Char_ord"
begin

section \<open>Python values as the loaders see them\<close>

text \<open>
  The cells of a pandas row read from a CSV file are strings, 64-bit floats, 64-bit
  integers, booleans, or missing.  \<open>row.get(col)\<close> of an absent column is \<open>None\<close>.
  A float is finite, one of the two infinities, or NaN; a finite float is represented
  by the rational number it denotes.
\<close>

datatype py_exc = ValueError | TypeError | OverflowError | KeyError
  | ConnectionError | DatabaseError | QualityChecksFailed nat

datatype pyfloat = Fin rat | PInf | NInf | NaN

datatype pyval = PNone | PStr string | PFloat pyfloat | PInt int | PBool bool

text \<open>
  The conversions of the Python runtime between strings and numbers are not part of
  the repository; they are taken as parameters.  \<open>float_of_str s = None\<close> stands for
  \<open>float(s)\<close> raising ValueError, \<open>int_of_str\<close> likewise for \<open>int(s)\<close>.
\<close>

record py_builtins =
  float_of_str :: "string \<Rightarrow> pyfloat option"
  float_of_int :: "int \<Rightarrow> pyfloat"
  str_of_float :: "pyfloat \<Rightarrow> string"
  int_of_str :: "string \<Rightarrow> int option"

definition pd_isna :: "pyval \<Rightarrow> bool" where
  "pd_isna v = (case v of PNone \<Rightarrow> True | PFloat NaN \<Rightarrow> True | _ \<Rightarrow> False)"

definition is_empty_str :: "pyval \<Rightarrow> bool" where
  \<comment> \<open>\<open>val == ''\<close>\<close>
  "is_empty_str v = (case v of PStr s \<Rightarrow> s = [] | _ \<Rightarrow> False)"

definition py_float :: "py_builtins \<Rightarrow> pyval \<Rightarrow> py_exc + pyfloat" where
  "py_float B v = (case v of
      PNone \<Rightarrow> Inl TypeError
    | PStr s \<Rightarrow> (case float_of_str B s of None \<Rightarrow> Inl ValueError | Some f \<Rightarrow> Inr f)
    | PFloat f \<Rightarrow> Inr f
    | PInt i \<Rightarrow> Inr (float_of_int B i)
    | PBool b \<Rightarrow> Inr (Fin (if b then 1 else 0)))"

definition trunc_rat :: "rat \<Rightarrow> int" where
  \<comment> \<open>rounding towards zero\<close>
  "trunc_rat q = (if 0 \<le> q then \<lfloor>q\<rfloor> else \<lceil>q\<rceil>)"

definition py_int_of_float :: "pyfloat \<Rightarrow> py_exc + int" where
  \<comment> \<open>\<open>int(f)\<close>: OverflowError on an infinity, ValueError on NaN\<close>
  "py_int_of_float f = (case f of
      Fin q \<Rightarrow> Inr (trunc_rat q)
    | PInf \<Rightarrow> Inl OverflowError
    | NInf \<Rightarrow> Inl OverflowError
    | NaN \<Rightarrow> Inl ValueError)"

definition caught :: "py_exc \<Rightarrow> bool" where
  \<comment> \<open>\<open>except (ValueError, TypeError)\<close>\<close>
  "caught e = (e = ValueError \<or> e = TypeError)"

definition digit_char :: "nat \<Rightarrow> char" where
  "digit_char n = ''0123456789'' ! n"

fun str_of_nat :: "nat \<Rightarrow> string" where
  "str_of_nat n = (if n < 10 then [digit_char n]
                   else str_of_nat (n div 10) @ [digit_char (n mod 10)])"

definition str_of_int :: "int \<Rightarrow> string" where
  "str_of_int i = (if i < 0 then CHR ''-'' # str_of_nat (nat (- i)) else str_of_nat (nat i))"

definition py_str :: "py_builtins \<Rightarrow> pyval \<Rightarrow> string" where
  "py_str B v = (case v of
      PNone \<Rightarrow> ''None''
    | PStr s \<Rightarrow> s
    | PFloat f \<Rightarrow> str_of_float B f
    | PInt i \<Rightarrow> str_of_int i
    | PBool b \<Rightarrow> (if b then ''True'' else ''False''))"

definition is_space :: "char \<Rightarrow> bool" where
  \<comment> \<open>a character is a code point below 256; \<open>str.isspace\<close> holds for these of them\<close>
  "is_space c = (let n = (of_char c :: nat) in
     (9 \<le> n \<and> n \<le> 13) \<or> (28 \<le> n \<and> n \<le> 32) \<or> n = 133 \<or> n = 160)"

definition strip :: "string \<Rightarrow> string" where
  "strip s = rev (dropWhile is_space (rev (dropWhile is_space s)))"

subsection \<open>The coercion helpers of \<open>db_helper.py\<close>\<close>

definition safe_float :: "py_builtins \<Rightarrow> pyval \<Rightarrow> py_exc + pyfloat option" where
  "safe_float B v =
     (if pd_isna v \<or> is_empty_str v then Inr None
      else (case py_float B v of
              Inr f \<Rightarrow> Inr (Some f)
            | Inl e \<Rightarrow> (if caught e then Inr None else Inl e)))"

definition safe_int :: "py_builtins \<Rightarrow> pyval \<Rightarrow> py_exc + int option" where
  "safe_int B v =
     (if pd_isna v \<or> is_empty_str v then Inr None
      else (case py_float B v of
              Inl e \<Rightarrow> (if caught e then Inr None else Inl e)
            | Inr f \<Rightarrow> (case py_int_of_float f of
                          Inl e \<Rightarrow> (if caught e then Inr None else Inl e)
                        | Inr i \<Rightarrow> Inr (Some i))))"

definition safe_str :: "py_builtins \<Rightarrow> pyval \<Rightarrow> string option" where
  "safe_str B v = (if pd_isna v \<or> is_empty_str v then None else Some (strip (py_str B v)))"

definition safe_bool :: "py_builtins \<Rightarrow> pyval \<Rightarrow> py_exc + bool" where
  "safe_bool B v =
     (case py_float B v of
        Inl e \<Rightarrow> (if caught e then Inr False else Inl e)
      | Inr f \<Rightarrow> (case py_int_of_float f of
                    Inl e \<Rightarrow> (if caught e then Inr False else Inl e)
                  | Inr i \<Rightarrow> Inr (i \<noteq> 0)))"


section \<open>The warehouse\<close>

text \<open>
  Modelled from the spec: the declarations of the tables, which are not among the
  sources.  Each table of the PostgreSQL database is a list of rows in insertion order.
  Its columns are those the INSERT statements of the loaders name, and its unique key is
  the conflict target of those statements (the ledger is unique on (file\_name, source),
  the fact table on its natural key).  Two rows conflict when their key columns hold
  equal values.  \<open>clock\<close> is the time \<open>dt.now()\<close> reads; reading it advances it.
\<close>

type_synonym date = "int \<times> int \<times> int"

datatype sqlval = SNull | SText string | SInt int | SFloat pyfloat | SBool bool

record airport =
  airport_code :: string
  airport_name :: pyval
  city :: pyval
  country :: pyval
  latitude :: pyval
  longitude :: pyval
  altitude :: "int option"
  timezone :: "pyval option"

record carrier =
  carrier_code :: string
  carrier_name :: string
  dot_id :: "int option"

record date_row =
  date_id :: date
  dr_year :: int
  quarter :: int
  dr_month :: int
  day_of_month :: int
  day_of_week :: int
  day_name :: string
  month_name :: string
  is_weekend :: bool
  season :: string

type_synonym flight = "sqlval list"

type_synonym rejected = "string \<times> string \<times> int \<times> string \<times> string"

record run =
  file_name :: string
  source :: string
  rows_processed :: nat
  rows_loaded :: nat
  rows_rejected :: nat
  status :: string
  started_at :: nat
  completed_at :: nat

record observation =
  obs_airport :: string
  obs_date :: string
  obs_time :: string
  obs_values :: "pyval list"

record db =
  airports :: "airport list"
  carriers :: "carrier list"
  date_dim :: "date_row list"
  flights :: "flight list"
  rejected_records :: "rejected list"
  pipeline_runs :: "run list"
  weather_observations :: "observation list"
  clock :: nat

definition tick :: "db \<Rightarrow> db" where
  "tick d = d\<lparr>clock := Suc (clock d)\<rparr>"

subsection \<open>Dataframes\<close>

type_synonym row = "string \<rightharpoonup> pyval"

record dataframe =
  df_columns :: "string list"
  df_rows :: "row list"

definition row_item :: "row \<Rightarrow> string \<Rightarrow> py_exc + pyval" where
  \<comment> \<open>\<open>row[c]\<close>\<close>
  "row_item r c = (case r c of None \<Rightarrow> Inl KeyError | Some v \<Rightarrow> Inr v)"

definition row_get :: "row \<Rightarrow> string \<Rightarrow> pyval" where
  \<comment> \<open>\<open>row.get(c)\<close>\<close>
  "row_get r c = (case r c of None \<Rightarrow> PNone | Some v \<Rightarrow> v)"

definition df_column :: "dataframe \<Rightarrow> string \<Rightarrow> py_exc + pyval list" where
  \<comment> \<open>\<open>df[c]\<close>\<close>
  "df_column df c =
     (if c \<in> set (df_columns df) then Inr (map (\<lambda>r. row_get r c) (df_rows df))
      else Inl KeyError)"

subsection \<open>The calendar of \<open>datetime\<close>\<close>

definition is_leap :: "int \<Rightarrow> bool" where
  "is_leap y = (y mod 4 = 0 \<and> (y mod 100 \<noteq> 0 \<or> y mod 400 = 0))"

definition days_before_year :: "int \<Rightarrow> int" where
  "days_before_year y = (let y1 = y - 1 in y1 * 365 + y1 div 4 - y1 div 100 + y1 div 400)"

definition days_in_month :: "int \<Rightarrow> int \<Rightarrow> int" where
  "days_in_month y m =
     (if m = 2 then (if is_leap y then 29 else 28)
      else if m = 4 \<or> m = 6 \<or> m = 9 \<or> m = 11 then 30 else 31)"

definition days_before_month :: "int \<Rightarrow> int \<Rightarrow> int" where
  "days_before_month y m = sum_list (map (days_in_month y) [1..m - 1])"

definition toordinal :: "date \<Rightarrow> int" where
  "toordinal dt = (case dt of (y, m, d) \<Rightarrow> days_before_year y + days_before_month y m + d)"

definition weekday :: "date \<Rightarrow> int" where
  \<comment> \<open>Monday is 0\<close>
  "weekday dt = (toordinal dt + 6) mod 7"

definition day_names :: "string list" where
  "day_names = [''Monday'', ''Tuesday'', ''Wednesday'', ''Thursday'', ''Friday'',
                ''Saturday'', ''Sunday'']"

definition month_names :: "string list" where
  "month_names = [''January'', ''February'', ''March'', ''April'', ''May'', ''June'', ''July'',
                  ''August'', ''September'', ''October'', ''November'', ''December'']"

definition zero_pad :: "nat \<Rightarrow> int \<Rightarrow> string" where
  "zero_pad w k = (let s = str_of_nat (nat k) in replicate (w - length s) CHR ''0'' @ s)"

definition iso_of_date :: "date \<Rightarrow> string" where
  \<comment> \<open>\<open>str(d)\<close> of a date\<close>
  "iso_of_date dt = (case dt of (y, m, d) \<Rightarrow>
     zero_pad 4 y @ ''-'' @ zero_pad 2 m @ ''-'' @ zero_pad 2 d)"

subsection \<open>\<open>ensure_dates_exist\<close>\<close>

text \<open>
  \<open>datetime.strptime(s, '%Y-%m-%d')\<close> belongs to the Python library and is a
  parameter: \<open>None\<close> stands for ValueError.  The argument of \<open>ensure_dates_exist\<close> is
  a set; the list is the order in which the loop meets its members.
\<close>

datatype date_val = DateStr string | DateObj date

definition get_season :: "int \<Rightarrow> string" where
  "get_season m =
     (if m = 12 \<or> m = 1 \<or> m = 2 then ''Winter''
      else if m = 3 \<or> m = 4 \<or> m = 5 then ''Spring''
      else if m = 6 \<or> m = 7 \<or> m = 8 then ''Summer''
      else ''Fall'')"

definition derive_date_row :: "date \<Rightarrow> date_row" where
  "derive_date_row dt = (case dt of (y, m, d) \<Rightarrow>
     \<lparr>date_id = dt, dr_year = y, quarter = (m - 1) div 3 + 1, dr_month = m, day_of_month = d,
      day_of_week = weekday dt, day_name = day_names ! nat (weekday dt),
      month_name = month_names ! nat (m - 1), is_weekend = (weekday dt \<ge> 5),
      season = get_season m\<rparr>)"

definition insert_date :: "date_row \<Rightarrow> date_row list \<Rightarrow> date_row list" where
  \<comment> \<open>\<open>ON CONFLICT (date_id) DO NOTHING\<close>\<close>
  "insert_date r tbl = (if date_id r \<in> set (map date_id tbl) then tbl else tbl @ [r])"

fun ensure_loop ::
  "(string \<Rightarrow> date option) \<Rightarrow> date_val list \<Rightarrow> date_row list \<Rightarrow> py_exc + date_row list" where
  "ensure_loop sp [] tbl = Inr tbl"
| "ensure_loop sp (DateStr s # ds) tbl =
     (case sp s of None \<Rightarrow> Inl ValueError
      | Some d \<Rightarrow> ensure_loop sp ds (insert_date (derive_date_row d) tbl))"
| "ensure_loop sp (DateObj d # ds) tbl = ensure_loop sp ds (insert_date (derive_date_row d) tbl)"

definition ensure_dates_exist ::
  "(string \<Rightarrow> date option) \<Rightarrow> date_val list \<Rightarrow> db \<Rightarrow> db \<times> (py_exc + nat)" where
  \<comment> \<open>one transaction: an exception rolls every insert of the call back\<close>
  "ensure_dates_exist sp dates d =
     (case ensure_loop sp dates (date_dim d) of
        Inl e \<Rightarrow> (d, Inl e)
      | Inr tbl \<Rightarrow> (d\<lparr>date_dim := tbl\<rparr>, Inr (length dates)))"

section \<open>Object storage and file discovery\<close>

text \<open>
  What the run meets outside the program: the outcome of listing the bucket, of
  fetching and parsing one object, of \<open>pd.to_datetime\<close> on a column (None is NaT),
  whether the database accepts the write of a chunk (by file name and chunk number),
  the parsed lines of \<open>airports.dat\<close>, the observations the weather service returns for
  a station and a date range (date, time and the nine measured values of each), and the
  text \<open>str\<close> gives for the stored value of an observation time.
\<close>

record airport_line =
  al_code :: pyval
  al_name :: pyval
  al_city :: pyval
  al_country :: pyval
  al_latitude :: pyval
  al_longitude :: pyval
  al_altitude :: pyval
  al_timezone :: pyval

type_synonym iem_row = "string \<times> string \<times> pyval list"

record env =
  s3_list :: "py_exc + string list"
  s3_get_csv :: "string \<Rightarrow> py_exc + dataframe"
  to_datetime :: "pyval list \<Rightarrow> py_exc + date option list"
  strptime :: "string \<Rightarrow> date option"
  write_error :: "string \<Rightarrow> nat \<Rightarrow> py_exc option"
  s3_get_airports :: "py_exc + airport_line list"
  iem_fetch :: "string \<Rightarrow> string \<Rightarrow> string \<Rightarrow> iem_row list"
  timestamp_text :: "string \<Rightarrow> string"

definition list_files :: "env \<Rightarrow> string list" where
  \<comment> \<open>\<open>except Exception: return []\<close>\<close>
  "list_files E = (case s3_list E of Inl e \<Rightarrow> [] | Inr keys \<Rightarrow> keys)"

definition lower_char :: "char \<Rightarrow> char" where
  "lower_char c =
     (case map_of (zip ''ABCDEFGHIJKLMNOPQRSTUVWXYZ'' ''abcdefghijklmnopqrstuvwxyz'') c of
        None \<Rightarrow> c | Some l \<Rightarrow> l)"

fun contains :: "string \<Rightarrow> string \<Rightarrow> bool" where
  \<comment> \<open>\<open>p in s\<close>\<close>
  "contains p [] = (p = [])"
| "contains p (c # s) = (prefix p (c # s) \<or> contains p s)"

definition is_flight_csv :: "string \<Rightarrow> bool" where
  \<comment> \<open>\<open>f.endswith('.csv') and 'airport' not in f.lower()\<close>\<close>
  "is_flight_csv f = (suffix ''.csv'' f \<and> \<not> contains ''airport'' (map lower_char f))"

definition basename :: "string \<Rightarrow> string" where
  \<comment> \<open>\<open>f.split('/')[-1]\<close>\<close>
  "basename f = rev (takeWhile (\<lambda>c. c \<noteq> CHR ''/'') (rev f))"

section \<open>The fact loader\<close>

record snapshot =
  valid_airports :: "string set"
  valid_carriers :: "string set"
  valid_dates :: "string set"

definition take_snapshot :: "db \<Rightarrow> snapshot" where
  "take_snapshot d =
     \<lparr>valid_airports = set (map airport_code (airports d)),
      valid_carriers = set (map carrier_code (carriers d)),
      valid_dates = set (map (\<lambda>r. iso_of_date (date_id r)) (date_dim d))\<rparr>"

fun join :: "string \<Rightarrow> string list \<Rightarrow> string" where
  "join sep [] = []"
| "join sep [x] = x"
| "join sep (x # y # ys) = x @ sep @ join sep (y # ys)"

definition rejection_reasons :: "snapshot \<Rightarrow> string \<Rightarrow> string \<Rightarrow> string \<Rightarrow> string \<Rightarrow> string list"
  where
  "rejection_reasons S origin dest carr flight_date =
     (if origin \<in> valid_airports S then [] else [''Unknown origin airport: '' @ origin]) @
     (if dest \<in> valid_airports S then [] else [''Unknown dest airport: '' @ dest]) @
     (if carr \<in> valid_carriers S then [] else [''Unknown carrier: '' @ carr]) @
     (if flight_date \<in> valid_dates S then [] else [''Unknown date: '' @ flight_date])"

definition row_keys :: "py_builtins \<Rightarrow> row \<Rightarrow> py_exc + (string \<times> string \<times> string \<times> string)" where
  \<comment> \<open>origin, dest, carrier, flight\_date: \<open>str(row[c]).strip()\<close>\<close>
  "row_keys B r =
     (case row_item r ''Origin'' of Inl e \<Rightarrow> Inl e | Inr vo \<Rightarrow>
      (case row_item r ''Dest'' of Inl e \<Rightarrow> Inl e | Inr vd \<Rightarrow>
       (case row_item r ''Reporting_Airline'' of Inl e \<Rightarrow> Inl e | Inr vc \<Rightarrow>
        (case row_item r ''FlightDate'' of Inl e \<Rightarrow> Inl e | Inr vf \<Rightarrow>
           Inr (strip (py_str B vo), strip (py_str B vd), strip (py_str B vc),
                strip (py_str B vf))))))"

definition sql_str :: "string option \<Rightarrow> sqlval" where
  "sql_str v = (case v of None \<Rightarrow> SNull | Some s \<Rightarrow> SText s)"

definition c_str :: "py_builtins \<Rightarrow> row \<Rightarrow> string \<Rightarrow> py_exc + sqlval" where
  "c_str B r c = Inr (sql_str (safe_str B (row_get r c)))"

definition c_int :: "py_builtins \<Rightarrow> row \<Rightarrow> string \<Rightarrow> py_exc + sqlval" where
  "c_int B r c = (case safe_int B (row_get r c) of Inl e \<Rightarrow> Inl e
      | Inr None \<Rightarrow> Inr SNull | Inr (Some i) \<Rightarrow> Inr (SInt i))"

definition c_float :: "py_builtins \<Rightarrow> row \<Rightarrow> string \<Rightarrow> py_exc + sqlval" where
  "c_float B r c = (case safe_float B (row_get r c) of Inl e \<Rightarrow> Inl e
      | Inr None \<Rightarrow> Inr SNull | Inr (Some f) \<Rightarrow> Inr (SFloat f))"

definition c_bool :: "py_builtins \<Rightarrow> row \<Rightarrow> string \<Rightarrow> py_exc + sqlval" where
  "c_bool B r c = (case safe_bool B (row_get r c) of Inl e \<Rightarrow> Inl e | Inr b \<Rightarrow> Inr (SBool b))"

fun sequence :: "(py_exc + 'a) list \<Rightarrow> py_exc + 'a list" where
  \<comment> \<open>the elements of a tuple are evaluated from left to right\<close>
  "sequence [] = Inr []"
| "sequence (Inl e # xs) = Inl e"
| "sequence (Inr v # xs) = (case sequence xs of Inl e \<Rightarrow> Inl e | Inr vs \<Rightarrow> Inr (v # vs))"

definition coerce_row ::
  "py_builtins \<Rightarrow> row \<Rightarrow> string \<Rightarrow> string \<Rightarrow> string \<Rightarrow> string \<Rightarrow> py_exc + flight" where
  \<comment> \<open>the tuple appended to \<open>valid_rows\<close>, in the column order of the INSERT\<close>
  "coerce_row B r origin dest carr flight_date = sequence
     [Inr (SText flight_date),
      Inr (SText carr),
      c_str B r ''Tail_Number'',
      c_int B r ''Flight_Number_Reporting_Airline'',
      Inr (SText origin),
      c_str B r ''OriginCityName'',
      c_str B r ''OriginState'',
      Inr (SText dest),
      c_str B r ''DestCityName'',
      c_str B r ''DestState'',
      c_str B r ''CRSDepTime'',
      c_str B r ''DepTime'',
      c_float B r ''DepDelay'',
      c_float B r ''DepDelayMinutes'',
      c_bool B r ''DepDel15'',
      c_str B r ''CRSArrTime'',
      c_str B r ''ArrTime'',
      c_float B r ''ArrDelay'',
      c_float B r ''ArrDelayMinutes'',
      c_bool B r ''ArrDel15'',
      c_bool B r ''Cancelled'',
      c_str B r ''CancellationCode'',
      c_bool B r ''Diverted'',
      c_float B r ''Distance'',
      c_float B r ''AirTime'',
      c_float B r ''CRSElapsedTime'',
      c_float B r ''ActualElapsedTime'',
      c_float B r ''CarrierDelay'',
      c_float B r ''WeatherDelay'',
      c_float B r ''NASDelay'',
      c_float B r ''SecurityDelay'',
      c_float B r ''LateAircraftDelay'']"

datatype verdict = Accepted flight | Rejected rejected

definition validate_row ::
  "py_builtins \<Rightarrow> snapshot \<Rightarrow> string \<Rightarrow> nat \<times> row \<Rightarrow> py_exc + verdict" where
  "validate_row B S fname ir = (case ir of (idx, r) \<Rightarrow>
     (case row_keys B r of Inl e \<Rightarrow> Inl e
      | Inr (origin, dest, carr, flight_date) \<Rightarrow>
          (let reasons = rejection_reasons S origin dest carr flight_date in
           if reasons \<noteq> [] then
             Inr (Rejected (''flights'', fname, int idx,
                    flight_date @ '','' @ carr @ '','' @ origin @ '','' @ dest,
                    join ''; '' reasons))
           else (case coerce_row B r origin dest carr flight_date of
                   Inl e \<Rightarrow> Inl e | Inr t \<Rightarrow> Inr (Accepted t)))))"

fun validate_chunk ::
  "py_builtins \<Rightarrow> snapshot \<Rightarrow> string \<Rightarrow> (nat \<times> row) list \<Rightarrow> py_exc + (flight list \<times> rejected list)"
  where
  "validate_chunk B S fname [] = Inr ([], [])"
| "validate_chunk B S fname (ir # rest) =
     (case validate_row B S fname ir of Inl e \<Rightarrow> Inl e
      | Inr v \<Rightarrow>
          (case validate_chunk B S fname rest of Inl e \<Rightarrow> Inl e
           | Inr (vs, rs) \<Rightarrow>
               (case v of Accepted t \<Rightarrow> Inr (t # vs, rs) | Rejected t \<Rightarrow> Inr (vs, t # rs))))"

definition natural_key :: "flight \<Rightarrow> sqlval \<times> sqlval \<times> sqlval \<times> sqlval" where
  \<comment> \<open>(flight\_date, carrier\_code, flight\_number, origin\_airport)\<close>
  "natural_key t = (t ! 0, t ! 1, t ! 3, t ! 4)"

definition insert_flight :: "flight \<Rightarrow> flight list \<Rightarrow> flight list" where
  \<comment> \<open>\<open>ON CONFLICT (flight_date, carrier_code, flight_number, origin_airport) DO NOTHING\<close>:
      a row is skipped when a stored row has the same four key values\<close>
  "insert_flight t tbl = (if natural_key t \<in> set (map natural_key tbl) then tbl else tbl @ [t])"

definition bulk_insert_flights :: "flight list \<Rightarrow> flight list \<Rightarrow> flight list" where
  "bulk_insert_flights ts tbl = foldl (\<lambda>acc t. insert_flight t acc) tbl ts"

definition write_chunk ::
  "env \<Rightarrow> string \<Rightarrow> nat \<Rightarrow> flight list \<Rightarrow> rejected list \<Rightarrow> db \<Rightarrow> py_exc + db" where
  \<comment> \<open>one connection and one transaction for the chunk: an error rolls both inserts back\<close>
  "write_chunk E fname chunk_num valid_rows rejected_rows d =
     (case write_error E fname chunk_num of
        Some e \<Rightarrow> Inl e
      | None \<Rightarrow> Inr (d\<lparr>flights := bulk_insert_flights valid_rows (flights d),
                       rejected_records := rejected_records d @ rejected_rows\<rparr>))"

fun process_chunks ::
  "env \<Rightarrow> py_builtins \<Rightarrow> snapshot \<Rightarrow> string \<Rightarrow> nat \<Rightarrow> (nat \<times> row) list list \<Rightarrow>
   db \<times> nat \<times> nat \<Rightarrow> db \<times> (py_exc + nat \<times> nat)" where
  "process_chunks E B S fname chunk_num [] (d, file_loaded, file_rejected) =
     (d, Inr (file_loaded, file_rejected))"
| "process_chunks E B S fname chunk_num (chunk # rest) (d, file_loaded, file_rejected) =
     (case validate_chunk B S fname chunk of
        Inl e \<Rightarrow> (d, Inl e)
      | Inr (valid_rows, rejected_rows) \<Rightarrow>
          (case write_chunk E fname chunk_num valid_rows rejected_rows d of
             Inl e \<Rightarrow> (d, Inl e)
           | Inr d' \<Rightarrow>
               process_chunks E B S fname (Suc chunk_num) rest
                 (d', file_loaded + length valid_rows, file_rejected + length rejected_rows)))"

function chunks :: "nat \<Rightarrow> 'a list \<Rightarrow> 'a list list" where
  "chunks n xs = (if n = 0 \<or> xs = [] then [] else take n xs # chunks n (drop n xs))"
  by pat_completeness auto
termination
  by (relation "measure (\<lambda>(n, xs). length xs)") auto

declare chunks.simps [simp del]

definition enumerate_rows :: "'a list \<Rightarrow> (nat \<times> 'a) list" where
  "enumerate_rows xs = zip [0..<length xs] xs"

definition CHUNK_SIZE :: nat where
  "CHUNK_SIZE = 50000"

definition date_str :: "date option \<Rightarrow> string" where
  \<comment> \<open>\<open>str(d.date())\<close>; the date of NaT is NaT\<close>
  "date_str d = (case d of None \<Rightarrow> ''NaT'' | Some dt \<Rightarrow> iso_of_date dt)"

definition prepare_dates :: "env \<Rightarrow> dataframe \<Rightarrow> snapshot \<Rightarrow> db \<Rightarrow> db \<times> (py_exc + snapshot)" where
  \<comment> \<open>the dates of the file that the snapshot lacks are inserted, then added to the snapshot\<close>
  "prepare_dates E df S d =
     (case df_column df ''FlightDate'' of Inl e \<Rightarrow> (d, Inl e) | Inr col \<Rightarrow>
      (case to_datetime E col of Inl e \<Rightarrow> (d, Inl e) | Inr ts \<Rightarrow>
       (let dates_in_file = remdups (map date_str ts);
            missing_dates = filter (\<lambda>s. s \<notin> valid_dates S) dates_in_file
        in if missing_dates = [] then (d, Inr S)
           else (case ensure_dates_exist (strptime E) (map DateStr missing_dates) d of
                   (d', Inl e) \<Rightarrow> (d', Inl e)
                 | (d', Inr n) \<Rightarrow>
                     (d', Inr (S\<lparr>valid_dates := valid_dates S \<union> set missing_dates\<rparr>))))))"

definition run_key :: "run \<Rightarrow> string \<times> string" where
  "run_key r = (file_name r, source r)"

definition upsert_run_flights :: "run \<Rightarrow> run list \<Rightarrow> run list" where
  \<comment> \<open>\<open>ON CONFLICT (file_name, source) DO UPDATE SET rows_loaded, rows_rejected, status,
      completed_at\<close>\<close>
  "upsert_run_flights new tbl =
     (if run_key new \<in> set (map run_key tbl)
      then map (\<lambda>old. if run_key old = run_key new
                       then old\<lparr>rows_loaded := rows_loaded new, rows_rejected := rows_rejected new,
                                status := status new, completed_at := completed_at new\<rparr>
                       else old) tbl
      else tbl @ [new])"

definition finish_file ::
  "string \<Rightarrow> nat \<Rightarrow> nat \<Rightarrow> snapshot \<Rightarrow> db \<times> (py_exc + nat \<times> nat) \<Rightarrow>
   (snapshot \<times> db) \<times> (py_exc + nat \<times> nat)" where
  \<comment> \<open>after the chunk loop: the ledger row of the file, unless the loop raised\<close>
  "finish_file fname started total_rows S res = (case res of
       (d, Inl e) \<Rightarrow> ((S, d), Inl e)
     | (d, Inr (file_loaded, file_rejected)) \<Rightarrow>
         ((S, tick (d\<lparr>pipeline_runs := upsert_run_flights
              \<lparr>file_name = fname, source = ''flights'',
               rows_processed = total_rows, rows_loaded = file_loaded,
               rows_rejected = file_rejected, status = ''completed'',
               started_at = started, completed_at = clock d\<rparr> (pipeline_runs d)\<rparr>)),
          Inr (file_loaded, file_rejected)))"

definition process_file ::
  "env \<Rightarrow> py_builtins \<Rightarrow> nat \<Rightarrow> string \<Rightarrow> snapshot \<times> db \<Rightarrow>
   (snapshot \<times> db) \<times> (py_exc + nat \<times> nat)" where
  "process_file E B n file_key st = (case st of (S, d0) \<Rightarrow>
     (let fname = basename file_key; started = clock d0; d = tick d0 in
      case s3_get_csv E file_key of Inl e \<Rightarrow> ((S, d), Inl e) | Inr df \<Rightarrow>
      (case prepare_dates E df S d of (d1, Inl e) \<Rightarrow> ((S, d1), Inl e) | (d1, Inr S1) \<Rightarrow>
         finish_file fname started (length (df_rows df)) S1
           (process_chunks E B S1 fname 1 (chunks n (enumerate_rows (df_rows df))) (d1, 0, 0)))))"

fun process_files ::
  "env \<Rightarrow> py_builtins \<Rightarrow> nat \<Rightarrow> string list \<Rightarrow> snapshot \<times> db \<Rightarrow> nat \<times> nat \<times> nat \<Rightarrow>
   db \<times> (py_exc + nat \<times> nat \<times> nat)" where
  "process_files E B n [] st acc = (snd st, Inr acc)"
| "process_files E B n (file_key # rest) st (files_processed, total_loaded, total_rejected) =
     (case process_file E B n file_key st of
        (st', Inl e) \<Rightarrow> (snd st', Inl e)
      | (st', Inr (file_loaded, file_rejected)) \<Rightarrow>
          process_files E B n rest st'
            (Suc files_processed, total_loaded + file_loaded, total_rejected + file_rejected))"

datatype load_result = NoNewFiles | Loaded nat nat nat

definition processed_files :: "db \<Rightarrow> string set" where
  \<comment> \<open>\<open>SELECT file_name FROM pipeline_runs WHERE source = 'flights' AND status = 'completed'\<close>\<close>
  "processed_files d =
     set (map file_name
       (filter (\<lambda>r. source r = ''flights'' \<and> status r = ''completed'') (pipeline_runs d)))"

definition new_files :: "env \<Rightarrow> db \<Rightarrow> string list" where
  "new_files E d =
     filter (\<lambda>f. basename f \<notin> processed_files d) (filter is_flight_csv (list_files E))"

definition load_flights_n :: "nat \<Rightarrow> env \<Rightarrow> py_builtins \<Rightarrow> db \<Rightarrow> db \<times> (py_exc + load_result)" where
  \<comment> \<open>\<open>load_flights\<close> with the chunk size as an argument\<close>
  "load_flights_n n E B d =
     (if new_files E d = [] then (d, Inr NoNewFiles)
      else (case process_files E B n (new_files E d) (take_snapshot d, d) (0, 0, 0) of
              (d', Inl e) \<Rightarrow> (d', Inl e)
            | (d', Inr (files_processed, total_loaded, total_rejected)) \<Rightarrow>
                (d', Inr (Loaded files_processed total_loaded total_rejected))))"

definition load_flights :: "env \<Rightarrow> py_builtins \<Rightarrow> db \<Rightarrow> db \<times> (py_exc + load_result)" where
  "load_flights = load_flights_n CHUNK_SIZE"

section \<open>The airports loader\<close>

definition valid_iata :: "airport_line \<Rightarrow> bool" where
  \<comment> \<open>\<open>notna() & (!= '\\N')\<close>, then \<open>.str.len() == 3\<close>; the length of a cell that is not
      a string is NaN\<close>
  "valid_iata l =
     (\<not> pd_isna (al_code l) \<and> al_code l \<noteq> PStr [CHR 0x5C, CHR ''N''] \<and>
      (case al_code l of PStr s \<Rightarrow> length s = 3 | _ \<Rightarrow> False))"

fun drop_duplicates :: "pyval list \<Rightarrow> airport_line list \<Rightarrow> airport_line list" where
  \<comment> \<open>\<open>drop_duplicates(subset='airport_code', keep='first')\<close>; the first argument holds
      the codes met so far\<close>
  "drop_duplicates seen [] = []"
| "drop_duplicates seen (l # ls) =
     (if al_code l \<in> set seen then drop_duplicates seen ls
      else l # drop_duplicates (al_code l # seen) ls)"

definition py_int :: "py_builtins \<Rightarrow> pyval \<Rightarrow> py_exc + int" where
  \<comment> \<open>\<open>int(v)\<close>\<close>
  "py_int B v = (case v of
      PNone \<Rightarrow> Inl TypeError
    | PStr s \<Rightarrow> (case int_of_str B s of None \<Rightarrow> Inl ValueError | Some i \<Rightarrow> Inr i)
    | PFloat f \<Rightarrow> py_int_of_float f
    | PInt i \<Rightarrow> Inr i
    | PBool b \<Rightarrow> Inr (if b then 1 else 0))"

definition to_airport :: "py_builtins \<Rightarrow> airport_line \<Rightarrow> py_exc + airport" where
  \<comment> \<open>the parameters of the INSERT for one line\<close>
  "to_airport B l =
     (case (if pd_isna (al_altitude l) then Inr None
            else (case py_int B (al_altitude l) of Inl e \<Rightarrow> Inl e | Inr i \<Rightarrow> Inr (Some i))) of
        Inl e \<Rightarrow> Inl e
      | Inr alt \<Rightarrow>
          Inr \<lparr>airport_code = py_str B (al_code l), airport_name = al_name l, city = al_city l,
               country = al_country l, latitude = al_latitude l, longitude = al_longitude l,
               altitude = alt,
               timezone = (if pd_isna (al_timezone l) then None else Some (al_timezone l))\<rparr>)"

definition insert_airport :: "airport \<Rightarrow> airport list \<Rightarrow> airport list" where
  \<comment> \<open>\<open>ON CONFLICT (airport_code) DO NOTHING\<close>\<close>
  "insert_airport a tbl = (if airport_code a \<in> set (map airport_code tbl) then tbl else tbl @ [a])"

fun insert_airports ::
  "py_builtins \<Rightarrow> airport_line list \<Rightarrow> airport list \<times> nat \<Rightarrow> py_exc + airport list \<times> nat" where
  "insert_airports B [] acc = Inr acc"
| "insert_airports B (l # ls) (tbl, n_loaded) =
     (case to_airport B l of Inl e \<Rightarrow> Inl e
      | Inr a \<Rightarrow> insert_airports B ls (insert_airport a tbl, Suc n_loaded))"

definition upsert_run_basic :: "run \<Rightarrow> run list \<Rightarrow> run list" where
  \<comment> \<open>\<open>ON CONFLICT (file_name, source) DO UPDATE SET rows_loaded, status, completed_at\<close>\<close>
  "upsert_run_basic new tbl =
     (if run_key new \<in> set (map run_key tbl)
      then map (\<lambda>old. if run_key old = run_key new
                       then old\<lparr>rows_loaded := rows_loaded new, status := status new,
                                completed_at := completed_at new\<rparr>
                       else old) tbl
      else tbl @ [new])"

definition load_airports :: "env \<Rightarrow> py_builtins \<Rightarrow> db \<Rightarrow> db \<times> (py_exc + nat)" where
  \<comment> \<open>the inserts are one transaction; the Pandera validation only prints\<close>
  "load_airports E B d =
     (case s3_get_airports E of Inl e \<Rightarrow> (d, Inl e) | Inr lines \<Rightarrow>
      (let df = drop_duplicates [] (filter valid_iata lines) in
       case insert_airports B df (airports d, 0) of Inl e \<Rightarrow> (d, Inl e)
       | Inr (tbl, n_loaded) \<Rightarrow>
           (let d1 = d\<lparr>airports := tbl\<rparr>; d2 = tick d1; d3 = tick d2 in
            (d3\<lparr>pipeline_runs := upsert_run_basic
                 \<lparr>file_name = ''airports.dat'', source = ''airports'',
                  rows_processed = length df, rows_loaded = n_loaded, rows_rejected = 0,
                  status = ''completed'', started_at = clock d1, completed_at = clock d2\<rparr>
                 (pipeline_runs d3)\<rparr>,
             Inr n_loaded))))"

section \<open>The weather loader\<close>

definition AIRPORT_STATION_MAP :: "(string \<times> string) list" where
  "AIRPORT_STATION_MAP =
     [(''ATL'', ''KATL''), (''DFW'', ''KDFW''), (''DEN'', ''KDEN''), (''ORD'', ''KORD''),
      (''LAX'', ''KLAX''), (''JFK'', ''KJFK''), (''LAS'', ''KLAS''), (''MCO'', ''KMCO''),
      (''MIA'', ''KMIA''), (''CLT'', ''KCLT''), (''SEA'', ''KSEA''), (''PHX'', ''KPHX''),
      (''EWR'', ''KEWR''), (''SFO'', ''KSFO''), (''IAH'', ''KIAH''), (''BOS'', ''KBOS''),
      (''FLL'', ''KFLL''), (''MSP'', ''KMSP''), (''LGA'', ''KLGA''), (''DTW'', ''KDTW''),
      (''PHL'', ''KPHL''), (''SLC'', ''KSLC''), (''DCA'', ''KDCA''), (''SAN'', ''KSAN''),
      (''BWI'', ''KBWI''), (''TPA'', ''KTPA''), (''AUS'', ''KAUS''), (''IAD'', ''KIAD''),
      (''BNA'', ''KBNA''), (''MDW'', ''KMDW'')]"

definition get_mapped_airports :: "string list" where
  "get_mapped_airports = map fst AIRPORT_STATION_MAP"

definition fetch_weather_for_airports ::
  "env \<Rightarrow> string list \<Rightarrow> string \<Rightarrow> string \<Rightarrow> observation list" where
  "fetch_weather_for_airports E aps start_date end_date =
     concat (map (\<lambda>a. case map_of AIRPORT_STATION_MAP a of
                         None \<Rightarrow> []
                       | Some station_id \<Rightarrow>
                           map (\<lambda>(od, ot, vals). \<lparr>obs_airport = a, obs_date = od, obs_time = ot,
                                                  obs_values = vals\<rparr>)
                               (iem_fetch E station_id start_date end_date)) aps)"

definition generate_weather_data :: "env \<Rightarrow> string list \<Rightarrow> date list \<Rightarrow> observation list" where
  "generate_weather_data E aps dates =
     (if dates = [] then []
      else (let date_strings = sort (map iso_of_date dates);
                start_date = hd date_strings;
                end_date = last date_strings;
                valid = filter (\<lambda>a. a \<in> set (map fst AIRPORT_STATION_MAP)) aps;
                observations = fetch_weather_for_airports E valid start_date end_date
            in filter (\<lambda>ob. obs_date ob \<in> set date_strings) observations))"

definition obs_key :: "observation \<Rightarrow> string \<times> string" where
  "obs_key ob = (obs_airport ob, obs_time ob)"

definition insert_observation :: "observation \<Rightarrow> observation list \<Rightarrow> observation list" where
  \<comment> \<open>\<open>ON CONFLICT (airport_code, observation_time) DO NOTHING\<close>\<close>
  "insert_observation w tbl = (if obs_key w \<in> set (map obs_key tbl) then tbl else tbl @ [w])"

definition stored :: "env \<Rightarrow> observation \<Rightarrow> observation" where
  \<comment> \<open>the row as the table holds it: the time as the text of the stored value\<close>
  "stored E ob = ob\<lparr>obs_time := timestamp_text E (obs_time ob)\<rparr>"

fun insert_weather ::
  "env \<Rightarrow> (string \<times> string) set \<Rightarrow> observation list \<Rightarrow> observation list \<times> nat \<times> nat \<Rightarrow>
   observation list \<times> nat \<times> nat" where
  "insert_weather E existing [] acc = acc"
| "insert_weather E existing (ob # obs) (tbl, loaded, skipped) =
     (if obs_key ob \<in> existing then insert_weather E existing obs (tbl, loaded, Suc skipped)
      else insert_weather E existing obs (insert_observation (stored E ob) tbl, Suc loaded, skipped))"

datatype weather_result = NothingToLoad | WeatherLoaded nat nat

definition load_weather :: "env \<Rightarrow> db \<Rightarrow> db \<times> weather_result" where
  \<comment> \<open>the set intersection is listed in table order; \<open>ORDER BY date_id\<close> is not modelled,
      \<open>generate_weather_data\<close> sorts the dates again\<close>
  "load_weather E d0 =
     (let started = clock d0; d = tick d0;
          valid_aps = filter (\<lambda>a. a \<in> set get_mapped_airports)
                             (remdups (map airport_code (airports d)))
      in if valid_aps = [] then (d, NothingToLoad)
         else (let dates = map date_id (date_dim d) in
           if dates = [] then (d, NothingToLoad)
           else (let existing = set (map obs_key (weather_observations d));
                     weather_data = generate_weather_data E valid_aps dates
                 in case insert_weather E existing weather_data (weather_observations d, 0, 0) of
                      (tbl, loaded, skipped) \<Rightarrow>
                        (let d1 = d\<lparr>weather_observations := tbl\<rparr>; d2 = tick d1 in
                         (d2\<lparr>pipeline_runs := upsert_run_basic
                              \<lparr>file_name = ''iem_hourly_weather'', source = ''weather'',
                               rows_processed = length weather_data, rows_loaded = loaded,
                               rows_rejected = 0, status = ''completed'',
                               started_at = started, completed_at = clock d1\<rparr>
                              (pipeline_runs d2)\<rparr>,
                          WeatherLoaded loaded skipped)))))"

abbreviation weather_data :: "env \<Rightarrow> db \<Rightarrow> observation list" where
  \<comment> \<open>the observations \<open>load_weather\<close> generates in a state\<close>
  "weather_data E d \<equiv>
     generate_weather_data E
       (filter (\<lambda>a. a \<in> set get_mapped_airports) (remdups (map airport_code (airports d))))
       (map date_id (date_dim d))"

section \<open>The quality gate\<close>

text \<open>
  The rejection rate is a Python float.  It is modelled by the rational number it
  rounds: the counts are integers, and for counts below \<open>10\<^sup>1\<^sup>5\<close> the comparison
  with 5 comes out the same.
\<close>

definition check :: "bool \<Rightarrow> nat \<times> nat \<Rightarrow> nat \<times> nat" where
  \<comment> \<open>(checks\_passed, checks\_failed)\<close>
  "check ok pf = (if ok then (Suc (fst pf), snd pf) else (fst pf, Suc (snd pf)))"

definition orphans :: "nat \<Rightarrow> db \<Rightarrow> nat" where
  \<comment> \<open>the flights whose column \<open>i\<close> matches no airport code\<close>
  "orphans i d =
     length (filter (\<lambda>t. t ! i \<notin> set (map (\<lambda>a. SText (airport_code a)) (airports d)))
                    (flights d))"

definition bad_delay :: "flight \<Rightarrow> bool" where
  \<comment> \<open>\<open>arr_delay IS NOT NULL AND (arr_delay < -150 OR arr_delay > 5000)\<close>; PostgreSQL
      orders NaN above every number\<close>
  "bad_delay t = (case t ! 17 of
      SFloat (Fin q) \<Rightarrow> q < - 150 \<or> 5000 < q
    | SFloat PInf \<Rightarrow> True
    | SFloat NInf \<Rightarrow> True
    | SFloat NaN \<Rightarrow> True
    | _ \<Rightarrow> False)"

fun latest_run :: "run list \<Rightarrow> run option" where
  \<comment> \<open>\<open>ORDER BY completed_at DESC LIMIT 1\<close>; among equal times the first in the table\<close>
  "latest_run [] = None"
| "latest_run (r # rs) =
     (case latest_run rs of
        None \<Rightarrow> Some r
      | Some r' \<Rightarrow> (if completed_at r < completed_at r' then Some r' else Some r))"

definition reject_rate :: "nat \<Rightarrow> nat \<Rightarrow> rat" where
  "reject_rate loaded rejected = of_nat rejected / of_nat (loaded + rejected) * 100"

definition rejection_check :: "db \<Rightarrow> nat \<times> nat \<Rightarrow> nat \<times> nat" where
  "rejection_check d pf =
     (case latest_run (filter (\<lambda>r. source r = ''flights'') (pipeline_runs d)) of
        None \<Rightarrow> pf
      | Some r \<Rightarrow>
          (if 0 < rows_loaded r
           then check (reject_rate (rows_loaded r) (rows_rejected r) < 5) pf
           else pf))"

definition weather_airports :: "db \<Rightarrow> bool" where
  \<comment> \<open>\<open>COUNT(DISTINCT w.airport_code)\<close> of the join with airports is positive\<close>
  "weather_airports d =
     (\<exists>w \<in> set (weather_observations d). obs_airport w \<in> set (map airport_code (airports d)))"

definition weather_dates :: "db \<Rightarrow> bool" where
  \<comment> \<open>\<open>COUNT(DISTINCT w.observation_date)\<close> of the join with date\_dim is positive; the
      dates are compared by their ISO text\<close>
  "weather_dates d =
     (\<exists>w \<in> set (weather_observations d).
        obs_date w \<in> set (map (\<lambda>r. iso_of_date (date_id r)) (date_dim d)))"

definition quality_counts :: "db \<Rightarrow> nat \<times> nat" where
  "quality_counts d =
     (check (weather_dates d)
     (check (weather_airports d)
     (check (weather_observations d \<noteq> [])
     (rejection_check d
     (check (length (filter bad_delay (flights d)) = 0)
     (check (orphans 7 d = 0)
     (check (orphans 4 d = 0)
     (check (flights d \<noteq> [])
     (check (carriers d \<noteq> [])
     (check (airports d \<noteq> []) (0, 0)))))))))))"

definition run_quality_checks :: "db \<Rightarrow> py_exc + nat \<times> nat" where
  \<comment> \<open>the summary of an empty flights table formats the NULL sum of cancellations, which
      raises TypeError before the count of failed checks is tested\<close>
  "run_quality_checks d =
     (if flights d = [] then Inl TypeError
      else (case quality_counts d of
              (checks_passed, checks_failed) \<Rightarrow>
                (if 0 < checks_failed then Inl (QualityChecksFailed checks_failed)
                 else Inr (checks_passed, checks_failed))))"

section \<open>Sample inputs\<close>

definition B0 :: py_builtins where
  "B0 = \<lparr>float_of_str = (\<lambda>s. if s = ''1'' then Some (Fin 1) else if s = ''0'' then Some (Fin 0)
                              else if s = ''inf'' then Some PInf else None),
         float_of_int = (\<lambda>i. Fin (of_int i)),
         str_of_float = (\<lambda>f. ''nan''),
         int_of_str = (\<lambda>s. None)\<rparr>"

definition S0 :: snapshot where
  "S0 = \<lparr>valid_airports = {''ATL'', ''JFK''}, valid_carriers = {''DL''},
         valid_dates = {''2024-01-06''}\<rparr>"

definition row_ok :: row where
  "row_ok = [''Origin'' \<mapsto> PStr ''ATL'', ''Dest'' \<mapsto> PStr ''JFK'',
             ''Reporting_Airline'' \<mapsto> PStr ''DL'', ''FlightDate'' \<mapsto> PStr ''2024-01-06'',
             ''Flight_Number_Reporting_Airline'' \<mapsto> PInt 1]"

definition row_bad :: row where
  "row_bad = [''Origin'' \<mapsto> PStr ''XXX'', ''Dest'' \<mapsto> PStr ''JFK'',
              ''Reporting_Airline'' \<mapsto> PStr ''ZZ'', ''FlightDate'' \<mapsto> PStr ''2024-01-06'']"

definition df0 :: dataframe where
  "df0 = \<lparr>df_columns = [''FlightDate'', ''Origin'', ''Dest'', ''Reporting_Airline'',
                          ''Flight_Number_Reporting_Airline''],
          df_rows = [row_ok, row_bad]\<rparr>"

definition line_atl :: airport_line where
  "line_atl = \<lparr>al_code = PStr ''ATL'', al_name = PStr ''Hartsfield'', al_city = PStr ''Atlanta'',
       al_country = PStr ''United States'', al_latitude = PFloat (Fin (3364 / 100)),
       al_longitude = PFloat (Fin (- 8443 / 100)), al_altitude = PInt 1026,
       al_timezone = PStr ''America/New_York''\<rparr>"

definition line_atl2 :: airport_line where
  "line_atl2 = line_atl\<lparr>al_name := PStr ''Atlanta Municipal'', al_city := PStr ''Hapeville''\<rparr>"

definition line_none :: airport_line where
  "line_none = line_atl\<lparr>al_code := PStr [CHR 0x5C, CHR ''N''], al_name := PStr ''Airstrip''\<rparr>"

definition airport_lines0 :: "airport_line list" where
  "airport_lines0 = [line_none, line_atl, line_atl2]"

definition E0 :: env where
  "E0 = \<lparr>s3_list = Inr [''raw/jan.csv''],
         s3_get_csv = (\<lambda>k. if k = ''raw/jan.csv'' then Inr df0 else Inl ConnectionError),
         to_datetime = (\<lambda>col. Inr (map (\<lambda>v. if v = PStr ''2024-01-06'' then Some (2024, 1, 6)
                                             else None) col)),
         strptime = (\<lambda>s. if s = ''2024-01-06'' then Some (2024, 1, 6) else None),
         write_error = (\<lambda>f n. None),
         s3_get_airports = Inr airport_lines0,
         iem_fetch = (\<lambda>station start end.
            if station = ''KATL'' then [(''2024-01-06'', ''2024-01-06 00:52'', [])] else []),
         timestamp_text = (\<lambda>s. s)\<rparr>"

definition db_empty :: db where
  "db_empty = \<lparr>airports = [], carriers = [], date_dim = [], flights = [],
               rejected_records = [], pipeline_runs = [], weather_observations = [], clock = 0\<rparr>"

definition db_init :: db where
  "db_init = db_empty\<lparr>
     airports := [\<lparr>airport_code = ''ATL'', airport_name = PStr ''Hartsfield'', city = PStr ''Atlanta'',
                   country = PStr ''United States'', latitude = PNone, longitude = PNone,
                   altitude = None, timezone = None\<rparr>,
                  \<lparr>airport_code = ''JFK'', airport_name = PStr ''Kennedy'', city = PStr ''New York'',
                   country = PStr ''United States'', latitude = PNone, longitude = PNone,
                   altitude = None, timezone = None\<rparr>],
     carriers := [\<lparr>carrier_code = ''DL'', carrier_name = ''Delta Air Lines'', dot_id = None\<rparr>],
     date_dim := [derive_date_row (2024, 1, 6)]\<rparr>"

definition flight_ok :: flight where
  "flight_ok = [SText ''2024-01-06'', SText ''DL'', SNull, SInt 1, SText ''ATL'', SNull, SNull,
     SText ''JFK'', SNull, SNull, SNull, SNull, SNull, SNull, SBool False, SNull, SNull, SNull,
     SNull, SBool False, SBool False, SNull, SBool False, SNull, SNull, SNull, SNull, SNull,
     SNull, SNull, SNull, SNull]"

definition rejected_bad :: rejected where
  "rejected_bad = (''flights'', ''jan.csv'', 1, ''2024-01-06,ZZ,XXX,JFK'',
                   ''Unknown origin airport: XXX; Unknown carrier: ZZ'')"

definition db_loaded :: db where
  "db_loaded = db_init\<lparr>
     flights := [flight_ok],
     rejected_records := [rejected_bad],
     pipeline_runs := [\<lparr>file_name = ''jan.csv'', source = ''flights'', rows_processed = 2,
                        rows_loaded = 1, rows_rejected = 1, status = ''completed'',
                        started_at = 0, completed_at = 1\<rparr>],
     clock := 2\<rparr>"

definition E_list_down :: env where
  "E_list_down = E0\<lparr>s3_list := Inl ConnectionError\<rparr>"

definition E_write_fails :: env where
  "E_write_fails = E0\<lparr>write_error := (\<lambda>f k. if k = 2 then Some DatabaseError else None)\<rparr>"

definition db_partial :: db where
  "db_partial = db_init\<lparr>flights := [flight_ok], clock := 1\<rparr>"

definition airport_atl :: airport where
  "airport_atl = \<lparr>airport_code = ''ATL'', airport_name = PStr ''Hartsfield'',
       city = PStr ''Atlanta'', country = PStr ''United States'',
       latitude = PFloat (Fin (3364 / 100)), longitude = PFloat (Fin (- 8443 / 100)),
       altitude = Some 1026, timezone = Some (PStr ''America/New_York'')\<rparr>"

definition db_air :: db where
  "db_air = db_empty\<lparr>
     airports := [airport_atl],
     pipeline_runs := [\<lparr>file_name = ''airports.dat'', source = ''airports'', rows_processed = 1,
                        rows_loaded = 1, rows_rejected = 0, status = ''completed'',
                        started_at = 0, completed_at = 1\<rparr>],
     clock := 2\<rparr>"


definition obs_atl :: observation where
  "obs_atl = \<lparr>obs_airport = ''ATL'', obs_date = ''2024-01-06'', obs_time = ''2024-01-06 00:52'',
              obs_values = []\<rparr>"

definition db_w1 :: db where
  "db_w1 = db_init\<lparr>
     pipeline_runs := [\<lparr>file_name = ''iem_hourly_weather'', source = ''weather'',
                        rows_processed = 1, rows_loaded = 1, rows_rejected = 0,
                        status = ''completed'', started_at = 0, completed_at = 1\<rparr>],
     weather_observations := [obs_atl],
     clock := 2\<rparr>"

definition db_w2 :: db where
  "db_w2 = db_w1\<lparr>
     pipeline_runs := [\<lparr>file_name = ''iem_hourly_weather'', source = ''weather'',
                        rows_processed = 1, rows_loaded = 0, rows_rejected = 0,
                        status = ''completed'', started_at = 0, completed_at = 3\<rparr>],
     clock := 4\<rparr>"

definition db_gate :: "nat \<Rightarrow> nat \<Rightarrow> db" where
  \<comment> \<open>a loaded warehouse whose most recent flights ledger row has the given counters\<close>
  "db_gate l r = db_init\<lparr>
     flights := [flight_ok],
     weather_observations := [obs_atl],
     pipeline_runs :=
       [\<lparr>file_name = ''jan.csv'', source = ''flights'', rows_processed = 1, rows_loaded = 1,
         rows_rejected = 0, status = ''completed'', started_at = 0, completed_at = 1\<rparr>,
        \<lparr>file_name = ''feb.csv'', source = ''flights'', rows_processed = l + r, rows_loaded = l,
         rows_rejected = r, status = ''completed'', started_at = 2, completed_at = 3\<rparr>],
     clock := 4\<rparr>"




section \<open>Coercion helpers\<close>

lemma py_float_raises_caught: "py_float B v = Inl e \<Longrightarrow> caught e"
  by (cases v) (auto simp: py_float_def caught_def split: option.splits)

lemma safe_float_unparsed: "py_float B v = Inl e \<Longrightarrow> safe_float B v = Inr None"
  using py_float_raises_caught[of B v e] by (simp add: safe_float_def)

lemma safe_int_unparsed: "py_float B v = Inl e \<Longrightarrow> safe_int B v = Inr None"
  using py_float_raises_caught[of B v e] by (simp add: safe_int_def)

lemma safe_float_missing: "pd_isna v \<or> is_empty_str v \<Longrightarrow> safe_float B v = Inr None"
  by (simp add: safe_float_def)

lemma safe_int_missing: "pd_isna v \<or> is_empty_str v \<Longrightarrow> safe_int B v = Inr None"
  by (simp add: safe_int_def)

lemma safe_float_returns: "\<exists>r. safe_float B v = Inr r"
proof (cases "py_float B v")
  case (Inl e)
  from safe_float_unparsed[OF this] show ?thesis by blast
next
  case (Inr f)
  then show ?thesis by (simp add: safe_float_def)
qed

lemma safe_str_text: "\<not> pd_isna v \<Longrightarrow> \<not> is_empty_str v \<Longrightarrow> safe_str B v = Some (strip (py_str B v))"
  by (simp add: safe_str_def)

text \<open>
  C7. The coercion helpers implement the null-safety policy: \<open>safe_float\<close> and
  \<open>safe_int\<close> return None for a value that fails to parse as a number, and
  \<open>safe_str\<close> returns the trimmed string, None when it is empty after trimming.
  The code tests \<open>val == ''\<close> before it trims: on a string of blanks \<open>safe_str\<close>
  returns the empty string, not None.
\<close>

theorem safe_str_blank_not_none:
  "safe_str B (PStr ''   '') = Some []
   \<and> safe_str B (PStr ''   '') \<noteq> None \<and> strip ''   '' = []"
  by (simp add: safe_str_def pd_isna_def is_empty_str_def py_str_def strip_def is_space_def)

lemma safe_bool_unparsed: "py_float B v = Inl e \<Longrightarrow> safe_bool B v = Inr False"
  using py_float_raises_caught[of B v e] by (simp add: safe_bool_def)

lemma safe_bool_missing: "safe_bool B PNone = Inr False \<and> safe_bool B (PFloat NaN) = Inr False"
  by (simp add: safe_bool_def py_float_def py_int_of_float_def caught_def)

lemma safe_bool_finite:
  "py_float B v = Inr (Fin q) \<Longrightarrow> safe_bool B v = Inr (trunc_rat q \<noteq> 0)"
  by (simp add: safe_bool_def py_int_of_float_def)
text \<open>
  C10. \<open>safe_bool\<close> is total and returns a boolean for every input.  The handler
  catches ValueError and TypeError only: on an infinite float \<open>int\<close> raises
  OverflowError, which leaves \<open>safe_bool\<close> as an exception.
\<close>

theorem safe_bool_inf_raises:
  "safe_bool B (PFloat PInf) = Inl OverflowError
   \<and> (\<forall>b. safe_bool B (PFloat PInf) \<noteq> Inr b)"
  by (simp add: safe_bool_def py_float_def py_int_of_float_def caught_def)

section \<open>Row validation\<close>

lemma join_member_sublist: "x \<in> set xs \<Longrightarrow> sublist x (join sep xs)"
proof (induction sep xs rule: join.induct)
  case (1 sep) then show ?case by simp
next
  case (2 sep y) then show ?case by simp
next
  case (3 sep a b ys)
  show ?case
  proof (cases "x = a")
    case True then show ?thesis by simp
  next
    case False
    with 3 have "sublist x (join sep (b # ys))" by simp
    then obtain ps ss where "join sep (b # ys) = ps @ x @ ss" by (auto simp: sublist_def)
    then have "join sep (a # b # ys) = (a @ sep @ ps) @ x @ ss" by simp
    then show ?thesis unfolding sublist_def by blast
  qed
qed

lemma reasons_empty_iff:
  "rejection_reasons S origin dest carr fd = [] \<longleftrightarrow>
     origin \<in> valid_airports S \<and> dest \<in> valid_airports S \<and> carr \<in> valid_carriers S
     \<and> fd \<in> valid_dates S"
  by (simp add: rejection_reasons_def)

lemma reasons_member:
  "(origin \<notin> valid_airports S \<longrightarrow>
      ''Unknown origin airport: '' @ origin \<in> set (rejection_reasons S origin dest carr fd)) \<and>
   (dest \<notin> valid_airports S \<longrightarrow>
      ''Unknown dest airport: '' @ dest \<in> set (rejection_reasons S origin dest carr fd)) \<and>
   (carr \<notin> valid_carriers S \<longrightarrow>
      ''Unknown carrier: '' @ carr \<in> set (rejection_reasons S origin dest carr fd)) \<and>
   (fd \<notin> valid_dates S \<longrightarrow>
      ''Unknown date: '' @ fd \<in> set (rejection_reasons S origin dest carr fd))"
  by (simp add: rejection_reasons_def)

lemma validate_row_rejected:
  assumes "row_keys B r = Inr (origin, dest, carr, fd)"
  shows "validate_row B S fname (idx, r) = Inr (Rejected t) \<longleftrightarrow>
     rejection_reasons S origin dest carr fd \<noteq> [] \<and>
     t = (''flights'', fname, int idx, fd @ '','' @ carr @ '','' @ origin @ '','' @ dest,
          join ''; '' (rejection_reasons S origin dest carr fd))"
  using assms by (auto simp: validate_row_def Let_def split: sum.splits)

lemma validate_row_accepted:
  assumes "row_keys B r = Inr (origin, dest, carr, fd)"
  shows "validate_row B S fname (idx, r) = Inr (Accepted t) \<longleftrightarrow>
     rejection_reasons S origin dest carr fd = [] \<and> coerce_row B r origin dest carr fd = Inr t"
  using assms by (auto simp: validate_row_def Let_def split: sum.splits)

lemma validate_chunk_split:
  "validate_chunk B S fname rows = Inr (vs, rs) \<Longrightarrow>
     vs = [t. Inr (Accepted t) \<leftarrow> map (validate_row B S fname) rows] \<and>
     rs = [t. Inr (Rejected t) \<leftarrow> map (validate_row B S fname) rows] \<and>
     length vs + length rs = length rows"
proof (induction rows arbitrary: vs rs)
  case Nil then show ?case by simp
next
  case (Cons ir rows)
  then show ?case
    by (auto split: sum.splits verdict.splits prod.splits)
qed

lemma row_keys_bad: "row_keys B0 row_bad = Inr (''XXX'', ''JFK'', ''ZZ'', ''2024-01-06'')"
  by (simp add: row_keys_def row_item_def row_bad_def py_str_def strip_def is_space_def)

lemma row_keys_ok: "row_keys B0 row_ok = Inr (''ATL'', ''JFK'', ''DL'', ''2024-01-06'')"
  by (simp add: row_keys_def row_item_def row_ok_def py_str_def strip_def is_space_def)

text \<open>
  C1. In \<open>load_flights\<close> a row whose four keys can be read is rejected if and only
  if its origin airport, destination airport, carrier code or flight date is absent
  from the snapshot sets; an accepted row has all four present; the rejection string is
  the reasons joined by \<open>'; '\<close> and holds the reason of every failing check; every
  row of a chunk goes to exactly one of \<open>valid_rows\<close> and \<open>rejected_rows\<close>.
\<close>

theorem load_flights_row_partition:
  assumes "row_keys B r = Inr (origin, dest, carr, fd)"
  shows "((\<exists>t. validate_row B S fname (idx, r) = Inr (Rejected t)) \<longleftrightarrow>
            (origin \<notin> valid_airports S \<or> dest \<notin> valid_airports S \<or>
             carr \<notin> valid_carriers S \<or> fd \<notin> valid_dates S))
     \<and> (\<forall>t. validate_row B S fname (idx, r) = Inr (Accepted t) \<longrightarrow>
            origin \<in> valid_airports S \<and> dest \<in> valid_airports S \<and>
            carr \<in> valid_carriers S \<and> fd \<in> valid_dates S)
     \<and> (\<forall>src f i raw reason.
            validate_row B S fname (idx, r) = Inr (Rejected (src, f, i, raw, reason)) \<longrightarrow>
            reason = join ''; '' (rejection_reasons S origin dest carr fd) \<and>
            (origin \<notin> valid_airports S \<longrightarrow> sublist (''Unknown origin airport: '' @ origin) reason) \<and>
            (dest \<notin> valid_airports S \<longrightarrow> sublist (''Unknown dest airport: '' @ dest) reason) \<and>
            (carr \<notin> valid_carriers S \<longrightarrow> sublist (''Unknown carrier: '' @ carr) reason) \<and>
            (fd \<notin> valid_dates S \<longrightarrow> sublist (''Unknown date: '' @ fd) reason))
     \<and> (\<forall>rows vs rs. validate_chunk B S fname rows = Inr (vs, rs) \<longrightarrow>
            vs = [t. Inr (Accepted t) \<leftarrow> map (validate_row B S fname) rows] \<and>
            rs = [t. Inr (Rejected t) \<leftarrow> map (validate_row B S fname) rows] \<and>
            length vs + length rs = length rows)"
proof (intro conjI allI impI)
  show "(\<exists>t. validate_row B S fname (idx, r) = Inr (Rejected t)) \<longleftrightarrow>
            (origin \<notin> valid_airports S \<or> dest \<notin> valid_airports S \<or>
             carr \<notin> valid_carriers S \<or> fd \<notin> valid_dates S)"
    using reasons_empty_iff[of S origin dest carr fd]
    by (auto simp: validate_row_rejected[OF assms])
next
  fix t assume a: "validate_row B S fname (idx, r) = Inr (Accepted t)"
  then have e: "rejection_reasons S origin dest carr fd = []"
    by (simp add: validate_row_accepted[OF assms])
  then show "origin \<in> valid_airports S" "dest \<in> valid_airports S"
    "carr \<in> valid_carriers S" "fd \<in> valid_dates S"
    by (simp_all add: reasons_empty_iff)
next
  fix src f i raw reason
  assume a: "validate_row B S fname (idx, r) = Inr (Rejected (src, f, i, raw, reason))"
  then show j: "reason = join ''; '' (rejection_reasons S origin dest carr fd)"
    by (simp add: validate_row_rejected[OF assms])
  note m = reasons_member[of origin S dest carr fd]
  { assume "origin \<notin> valid_airports S"
    then show "sublist (''Unknown origin airport: '' @ origin) reason"
      unfolding j using m by (intro join_member_sublist) blast }
  { assume "dest \<notin> valid_airports S"
    then show "sublist (''Unknown dest airport: '' @ dest) reason"
      unfolding j using m by (intro join_member_sublist) blast }
  { assume "carr \<notin> valid_carriers S"
    then show "sublist (''Unknown carrier: '' @ carr) reason"
      unfolding j using m by (intro join_member_sublist) blast }
  { assume "fd \<notin> valid_dates S"
    then show "sublist (''Unknown date: '' @ fd) reason"
      unfolding j using m by (intro join_member_sublist) blast }
next
  fix rows vs rs assume "validate_chunk B S fname rows = Inr (vs, rs)"
  from validate_chunk_split[OF this]
  show "vs = [t. Inr (Accepted t) \<leftarrow> map (validate_row B S fname) rows]"
    "rs = [t. Inr (Rejected t) \<leftarrow> map (validate_row B S fname) rows]"
    "length vs + length rs = length rows" by blast+
qed

theorem load_flights_row_partition_witness:
  "row_keys B0 row_bad = Inr (''XXX'', ''JFK'', ''ZZ'', ''2024-01-06'')
   \<and> (\<exists>t. validate_row B0 S0 ''jan.csv'' (0, row_bad) = Inr (Rejected t))
   \<and> validate_row B0 S0 ''jan.csv'' (0, row_bad) =
       Inr (Rejected (''flights'', ''jan.csv'', 0, ''2024-01-06,ZZ,XXX,JFK'',
                      ''Unknown origin airport: XXX; Unknown carrier: ZZ''))
   \<and> sublist ''Unknown carrier: ZZ'' ''Unknown origin airport: XXX; Unknown carrier: ZZ''"
proof -
  note p = load_flights_row_partition[OF row_keys_bad, of S0 "''jan.csv''" 0]
  have v: "validate_row B0 S0 ''jan.csv'' (0, row_bad) =
       Inr (Rejected (''flights'', ''jan.csv'', 0, ''2024-01-06,ZZ,XXX,JFK'',
                      ''Unknown origin airport: XXX; Unknown carrier: ZZ''))"
    by (simp add: validate_row_def row_keys_bad rejection_reasons_def S0_def)
  have "''ZZ'' \<notin> valid_carriers S0" by (simp add: S0_def)
  with p v have "sublist (''Unknown carrier: '' @ ''ZZ'')
       ''Unknown origin airport: XXX; Unknown carrier: ZZ''" by blast
  with v row_keys_bad show ?thesis by simp
qed


section \<open>The date dimension\<close>

lemma date_id_derive: "date_id (derive_date_row dt) = dt"
  by (cases dt) (simp add: derive_date_row_def)

lemma ensure_loop_mono:
  "ensure_loop sp ds tbl = Inr tbl' \<Longrightarrow> set tbl \<subseteq> set tbl'"
proof (induction sp ds tbl rule: ensure_loop.induct)
  case (1 sp tbl) then show ?case by simp
next
  case (2 sp s ds tbl)
  then show ?case by (auto simp: insert_date_def split: option.splits if_splits)
next
  case (3 sp d ds tbl)
  then show ?case by (auto simp: insert_date_def split: if_splits)
qed

lemma insert_date_has: "date_id r \<in> date_id ` set (insert_date r tbl)"
  by (auto simp: insert_date_def)

lemma ensure_loop_has:
  "ensure_loop sp ds tbl = Inr tbl' \<Longrightarrow> DateStr s \<in> set ds \<Longrightarrow> sp s = Some dt \<Longrightarrow>
   dt \<in> date_id ` set tbl'"
proof (induction sp ds tbl rule: ensure_loop.induct)
  case (1 sp tbl) then show ?case by simp
next
  case (2 sp s' ds tbl)
  show ?case
  proof (cases "s' = s")
    case True
    with 2 have l: "ensure_loop sp ds (insert_date (derive_date_row dt) tbl) = Inr tbl'" by simp
    have "dt \<in> date_id ` set (insert_date (derive_date_row dt) tbl)"
      using insert_date_has[of "derive_date_row dt" tbl] by (simp add: date_id_derive)
    with ensure_loop_mono[OF l] show ?thesis by blast
  next
    case False
    with 2 show ?thesis by (auto split: option.splits)
  qed
next
  case (3 sp d ds tbl)
  then show ?case by auto
qed

lemma ensure_loop_derived:
  "ensure_loop sp ds tbl = Inr tbl' \<Longrightarrow> r \<in> set tbl' \<Longrightarrow>
   r \<in> set tbl \<or> r = derive_date_row (date_id r)"
proof (induction sp ds tbl rule: ensure_loop.induct)
  case (1 sp tbl) then show ?case by simp
next
  case (2 sp s ds tbl)
  then show ?case by (auto simp: insert_date_def date_id_derive split: option.splits if_splits)
next
  case (3 sp d ds tbl)
  then show ?case by (auto simp: insert_date_def date_id_derive split: if_splits)
qed

lemma quarter_ceiling: "(m - 1) div 3 + 1 = \<lceil>rat_of_int m / 3\<rceil>"
proof -
  have "\<lceil>rat_of_int m / rat_of_int 3\<rceil> = - (- m div 3)" by (rule ceiling_divide_eq_div)
  moreover have "- (- m div 3) = (m - 1) div 3 + 1" by presburger
  ultimately show ?thesis by simp
qed

lemma weekday_range: "0 \<le> weekday dt \<and> weekday dt < 7"
  by (simp add: weekday_def)

lemma weekend_names:
  "(weekday dt \<ge> 5) \<longleftrightarrow> (day_names ! nat (weekday dt) = ''Saturday'' \<or> day_names ! nat (weekday dt) = ''Sunday'')"
proof -
  have "weekday dt \<in> {0,1,2,3,4,5,6}" using weekday_range[of dt] by auto
  then show ?thesis by (auto simp: day_names_def)
qed
lemma iso_sample: "iso_of_date (2024, 1, 6) = ''2024-01-06''"
  by (simp add: iso_of_date_def zero_pad_def digit_char_def)

lemma weekday_sample: "weekday (2024, 1, 6) = 5"
  by (simp add: weekday_def toordinal_def days_before_year_def days_before_month_def upto.simps)

lemma derive_sample: "derive_date_row (2024, 1, 6) =
   \<lparr>date_id = (2024, 1, 6), dr_year = 2024, quarter = 1, dr_month = 1,
    day_of_month = 6, day_of_week = 5, day_name = ''Saturday'',
    month_name = ''January'', is_weekend = True, season = ''Winter''\<rparr>"
  by (simp add: derive_date_row_def weekday_sample day_names_def month_names_def get_season_def)

lemma prepare_sample:
  "prepare_dates E0 df0 \<lparr>valid_airports = {}, valid_carriers = {}, valid_dates = {}\<rparr> db_empty =
     (db_empty\<lparr>date_dim := [derive_date_row (2024, 1, 6)]\<rparr>,
      Inr \<lparr>valid_airports = {}, valid_carriers = {}, valid_dates = {''2024-01-06''}\<rparr>)"
  by (simp add: prepare_dates_def df_column_def df0_def E0_def row_get_def row_ok_def row_bad_def
      date_str_def iso_sample ensure_dates_exist_def db_empty_def insert_date_def)

text \<open>
  C5. When a fact file holds a flight date that the date snapshot lacks, \<open>load_flights\<close>
  inserts the date into \<open>date_dim\<close> and adds it to the snapshot before the chunk loop
  validates any row of the file, and the inserted row is the one \<open>ensure_dates_exist\<close>
  derives from the date: quarter = ceil(month/3), day of week and weekday name from the
  calendar, \<open>is_weekend\<close> exactly on Saturday and Sunday, season Winter for months
  12, 1, 2, Spring for 3, 4, 5, Summer for 6, 7, 8, Fall otherwise.
\<close>

theorem missing_date_inserted_before_validation:
  assumes col: "df_column df ''FlightDate'' = Inr col"
    and ts: "to_datetime E col = Inr ts"
    and mem: "Some dt \<in> set ts"
    and absent: "iso_of_date dt \<notin> valid_dates S"
    and cover: "valid_dates (take_snapshot d) \<subseteq> valid_dates S"
    and sp: "strptime E (iso_of_date dt) = Some dt"
    and prep: "prepare_dates E df S d = (d1, Inr S1)"
  shows "derive_date_row dt \<in> set (date_dim d1)
     \<and> iso_of_date dt \<in> valid_dates S1
     \<and> (\<forall>origin dest carr. ''Unknown date: '' @ iso_of_date dt
            \<notin> set (rejection_reasons S1 origin dest carr (iso_of_date dt)))
     \<and> (s3_get_csv E key = Inr df \<and> d = tick d0 \<longrightarrow>
          process_file E B n key (S, d0) =
            finish_file (basename key) (clock d0) (length (df_rows df)) S1
              (process_chunks E B S1 (basename key) 1
                 (chunks n (enumerate_rows (df_rows df))) (d1, 0, 0)))
     \<and> quarter (derive_date_row dt) = \<lceil>rat_of_int (dr_month (derive_date_row dt)) / 3\<rceil>
     \<and> dr_month (derive_date_row dt) = fst (snd dt)
     \<and> day_of_week (derive_date_row dt) = weekday dt
     \<and> day_name (derive_date_row dt) = day_names ! nat (weekday dt)
     \<and> (is_weekend (derive_date_row dt) \<longleftrightarrow>
          (day_name (derive_date_row dt) = ''Saturday'' \<or> day_name (derive_date_row dt) = ''Sunday''))
     \<and> season (derive_date_row dt) =
          (if fst (snd dt) \<in> {12, 1, 2} then ''Winter''
           else if fst (snd dt) \<in> {3, 4, 5} then ''Spring''
           else if fst (snd dt) \<in> {6, 7, 8} then ''Summer'' else ''Fall'')"
proof -
  let ?missing = "filter (\<lambda>s. s \<notin> valid_dates S) (remdups (map date_str ts))"
  have m: "iso_of_date dt \<in> set ?missing"
    using mem absent by (force simp: date_str_def)
  have ne: "?missing \<noteq> []"
  proof
    assume "?missing = []"
    with m show False by (simp only: set_simps(1) empty_iff)
  qed
  from prep col ts ne obtain n' where
    e: "ensure_dates_exist (strptime E) (map DateStr ?missing) d = (d1, Inr n')"
    and S1: "S1 = S\<lparr>valid_dates := valid_dates S \<union> set ?missing\<rparr>"
    by (auto simp: prepare_dates_def Let_def split: prod.splits sum.splits)
  from e obtain tbl where l: "ensure_loop (strptime E) (map DateStr ?missing) (date_dim d) = Inr tbl"
    and d1: "date_dim d1 = tbl"
    by (auto simp: ensure_dates_exist_def split: sum.splits)
  have "DateStr (iso_of_date dt) \<in> set (map DateStr ?missing)" using m by simp
  from ensure_loop_has[OF l this sp] obtain r where r: "r \<in> set tbl" "date_id r = dt" by auto
  have "r \<notin> set (date_dim d)"
  proof
    assume "r \<in> set (date_dim d)"
    then have "iso_of_date (date_id r) \<in> valid_dates (take_snapshot d)"
      by (auto simp: take_snapshot_def)
    with cover absent r show False by auto
  qed
  with ensure_loop_derived[OF l r(1)] r have c1: "derive_date_row dt \<in> set (date_dim d1)"
    by (auto simp: d1)
  have c2: "iso_of_date dt \<in> valid_dates S1" using m S1 by simp
  have c3: "\<forall>origin dest carr. ''Unknown date: '' @ iso_of_date dt
            \<notin> set (rejection_reasons S1 origin dest carr (iso_of_date dt))"
    using c2 by (auto simp: rejection_reasons_def)
  have c4: "s3_get_csv E key = Inr df \<and> d = tick d0 \<longrightarrow>
          process_file E B n key (S, d0) =
            finish_file (basename key) (clock d0) (length (df_rows df)) S1
              (process_chunks E B S1 (basename key) 1
                 (chunks n (enumerate_rows (df_rows df))) (d1, 0, 0))"
  proof (intro impI, elim conjE)
    assume g: "s3_get_csv E key = Inr df" and t: "d = tick d0"
    from prep t have "prepare_dates E df S (tick d0) = (d1, Inr S1)" by simp
    with g show "process_file E B n key (S, d0) =
            finish_file (basename key) (clock d0) (length (df_rows df)) S1
              (process_chunks E B S1 (basename key) 1
                 (chunks n (enumerate_rows (df_rows df))) (d1, 0, 0))"
      by (simp add: process_file_def Let_def)
  qed
  obtain y mo dd where dt: "dt = (y, mo, dd)" by (cases dt) auto
  have c5: "quarter (derive_date_row dt) = \<lceil>rat_of_int (dr_month (derive_date_row dt)) / 3\<rceil>"
    by (simp add: dt derive_date_row_def quarter_ceiling)
  have c6: "dr_month (derive_date_row dt) = fst (snd dt)"
    "day_of_week (derive_date_row dt) = weekday dt"
    "day_name (derive_date_row dt) = day_names ! nat (weekday dt)"
    by (simp_all add: dt derive_date_row_def)
  have c7: "is_weekend (derive_date_row dt) \<longleftrightarrow>
          (day_name (derive_date_row dt) = ''Saturday'' \<or> day_name (derive_date_row dt) = ''Sunday'')"
    using weekend_names[of dt] by (simp add: dt derive_date_row_def)
  have c8: "season (derive_date_row dt) =
          (if fst (snd dt) \<in> {12, 1, 2} then ''Winter''
           else if fst (snd dt) \<in> {3, 4, 5} then ''Spring''
           else if fst (snd dt) \<in> {6, 7, 8} then ''Summer'' else ''Fall'')"
    by (simp add: dt derive_date_row_def get_season_def)
  from c1 c2 c3 c4 c5 c6 c7 c8 show ?thesis by blast
qed

theorem missing_date_inserted_before_validation_witness:
  "df_column df0 ''FlightDate'' = Inr [PStr ''2024-01-06'', PStr ''2024-01-06'']
   \<and> to_datetime E0 [PStr ''2024-01-06'', PStr ''2024-01-06''] = Inr [Some (2024, 1, 6), Some (2024, 1, 6)]
   \<and> prepare_dates E0 df0 \<lparr>valid_airports = {}, valid_carriers = {}, valid_dates = {}\<rparr> db_empty =
     (db_empty\<lparr>date_dim := [derive_date_row (2024, 1, 6)]\<rparr>,
      Inr \<lparr>valid_airports = {}, valid_carriers = {}, valid_dates = {''2024-01-06''}\<rparr>)
   \<and> derive_date_row (2024, 1, 6) \<in> set (date_dim (db_empty\<lparr>date_dim := [derive_date_row (2024, 1, 6)]\<rparr>))
   \<and> is_weekend (derive_date_row (2024, 1, 6))
   \<and> day_name (derive_date_row (2024, 1, 6)) = ''Saturday''
   \<and> season (derive_date_row (2024, 1, 6)) = ''Winter''"
proof -
  have h1: "df_column df0 ''FlightDate'' = Inr [PStr ''2024-01-06'', PStr ''2024-01-06'']"
    by (simp add: df_column_def df0_def row_get_def row_ok_def row_bad_def)
  have h2: "to_datetime E0 [PStr ''2024-01-06'', PStr ''2024-01-06''] = Inr [Some (2024, 1, 6), Some (2024, 1, 6)]"
    by (simp add: E0_def)
  have h3: "Some (2024, 1, 6) \<in> set [Some (2024, 1, 6), Some (2024 :: int, 1 :: int, 6 :: int)]" by simp
  have h4: "iso_of_date (2024, 1, 6) \<notin> valid_dates \<lparr>valid_airports = {}, valid_carriers = {}, valid_dates = {}\<rparr>"
    by simp
  have h5: "valid_dates (take_snapshot db_empty) \<subseteq> valid_dates \<lparr>valid_airports = {}, valid_carriers = {}, valid_dates = {}\<rparr>"
    by (simp add: take_snapshot_def db_empty_def)
  have h6: "strptime E0 (iso_of_date (2024, 1, 6)) = Some (2024, 1, 6)"
    by (simp add: E0_def iso_sample)
  note t = missing_date_inserted_before_validation[OF h1 h2 h3 h4 h5 h6 prepare_sample]
  from t have "derive_date_row (2024, 1, 6) \<in> set (date_dim (db_empty\<lparr>date_dim := [derive_date_row (2024, 1, 6)]\<rparr>))"
    by blast
  moreover have "is_weekend (derive_date_row (2024, 1, 6))" "day_name (derive_date_row (2024, 1, 6)) = ''Saturday''"
     "season (derive_date_row (2024, 1, 6)) = ''Winter''"
    by (simp_all add: derive_sample)
  ultimately show ?thesis using h1 h2 prepare_sample by simp
qed

section \<open>Re-running the fact loader\<close>

subsection \<open>What each step leaves alone\<close>

lemma process_chunks_frame:
  "process_chunks E B S fname k cs (d, l, r) = (d', res) \<Longrightarrow>
   pipeline_runs d' = pipeline_runs d \<and> date_dim d' = date_dim d \<and> airports d' = airports d
   \<and> carriers d' = carriers d \<and> weather_observations d' = weather_observations d
   \<and> clock d' = clock d"
proof (induction cs arbitrary: d l r k)
  case Nil then show ?case by simp
next
  case (Cons c cs)
  show ?case
  proof (cases "validate_chunk B S fname c")
    case (Inl e) with Cons.prems show ?thesis by simp
  next
    case (Inr p)
    obtain vs rs where p: "p = (vs, rs)" by (cases p)
    show ?thesis
    proof (cases "write_chunk E fname k vs rs d")
      case (Inl e) with Cons.prems Inr p show ?thesis by simp
    next
      case w: (Inr d2)
      with Cons.prems Inr p have
        "process_chunks E B S fname (Suc k) cs (d2, l + length vs, r + length rs) = (d', res)"
        by simp
      from Cons.IH[OF this] w show ?thesis
        by (auto simp: write_chunk_def split: option.splits)
    qed
  qed
qed

lemma ensure_dates_frame:
  "ensure_dates_exist sp ds d = (d', res) \<Longrightarrow>
   pipeline_runs d' = pipeline_runs d \<and> flights d' = flights d \<and> airports d' = airports d
   \<and> carriers d' = carriers d \<and> rejected_records d' = rejected_records d \<and> clock d' = clock d
   \<and> weather_observations d' = weather_observations d"
  by (cases "ensure_loop sp ds (date_dim d)") (auto simp: ensure_dates_exist_def)

lemma prepare_dates_frame:
  assumes "prepare_dates E df S d = (d', res)"
  shows "pipeline_runs d' = pipeline_runs d \<and> flights d' = flights d \<and> airports d' = airports d
   \<and> carriers d' = carriers d \<and> rejected_records d' = rejected_records d \<and> clock d' = clock d
   \<and> weather_observations d' = weather_observations d"
proof (cases "df_column df ''FlightDate''")
  case (Inl e)
  with assms show ?thesis by (simp add: prepare_dates_def)
next
  case col: (Inr col)
  show ?thesis
  proof (cases "to_datetime E col")
    case (Inl e)
    with assms col show ?thesis by (simp add: prepare_dates_def)
  next
    case ts: (Inr ts)
    let ?m = "filter (\<lambda>s. s \<notin> valid_dates S) (remdups (map date_str ts))"
    show ?thesis
    proof (cases "?m = []")
      case True
      with assms col ts show ?thesis by (simp add: prepare_dates_def Let_def)
    next
      case False
      obtain d2 r2 where e: "ensure_dates_exist (strptime E) (map DateStr ?m) d = (d2, r2)"
        by (cases "ensure_dates_exist (strptime E) (map DateStr ?m) d") auto
      with assms col ts False have "d' = d2"
        by (cases r2) (simp_all add: prepare_dates_def Let_def)
      with ensure_dates_frame[OF e] show ?thesis by simp
    qed
  qed
qed
subsection \<open>The ledger\<close>

lemma upsert_files:
  assumes "source new = ''flights''" "status new = ''completed''"
  shows "set (map file_name (filter (\<lambda>r. source r = ''flights'' \<and> status r = ''completed'')
            (upsert_run_flights new tbl)))
        = insert (file_name new) (set (map file_name
            (filter (\<lambda>r. source r = ''flights'' \<and> status r = ''completed'') tbl)))"
proof (cases "run_key new \<in> set (map run_key tbl)")
  case False
  then show ?thesis using assms by (simp add: upsert_run_flights_def)
next
  case True
  let ?P = "\<lambda>r. source r = ''flights'' \<and> status r = ''completed''"
  let ?u = "\<lambda>old. if run_key old = run_key new
                       then old\<lparr>rows_loaded := rows_loaded new, rows_rejected := rows_rejected new,
                                status := status new, completed_at := completed_at new\<rparr>
                       else old"
  have u: "upsert_run_flights new tbl = map ?u tbl" using True by (simp add: upsert_run_flights_def)
  have fn: "\<And>r. file_name (?u r) = file_name r" by simp
  have P: "\<And>r. ?P (?u r) \<longleftrightarrow> (run_key r = run_key new \<or> ?P r)"
    using assms by (auto simp: run_key_def)
  from True obtain o1 where o1: "o1 \<in> set tbl" "run_key o1 = run_key new" by auto
  have "set (map file_name (filter ?P (map ?u tbl)))
        = file_name ` {r \<in> set tbl. run_key r = run_key new \<or> ?P r}"
  proof -
    have "set (map file_name (filter ?P (map ?u tbl))) = (\<lambda>r. file_name (?u r)) ` {r \<in> set tbl. ?P (?u r)}"
      by (simp only: filter_map set_map set_filter image_image o_def image_comp)
    also have "\<dots> = file_name ` {r \<in> set tbl. run_key r = run_key new \<or> ?P r}"
      by (simp only: fn P)
    finally show ?thesis .
  qed
  also have "\<dots> = insert (file_name new) (file_name ` {r \<in> set tbl. ?P r})"
  proof
    show "file_name ` {r \<in> set tbl. run_key r = run_key new \<or> ?P r}
          \<subseteq> insert (file_name new) (file_name ` {r \<in> set tbl. ?P r})"
      by (auto simp: run_key_def)
    show "insert (file_name new) (file_name ` {r \<in> set tbl. ?P r})
          \<subseteq> file_name ` {r \<in> set tbl. run_key r = run_key new \<or> ?P r}"
    proof -
      have "file_name new = file_name o1" using o1 by (simp add: run_key_def)
      with o1 have "file_name new \<in> file_name ` {r \<in> set tbl. run_key r = run_key new \<or> ?P r}"
        by blast
      then show ?thesis by blast
    qed
  qed
  finally show ?thesis by (simp add: u)
qed

lemma processed_files_upsert:
  assumes "source new = ''flights''" "status new = ''completed''"
  shows "processed_files (d\<lparr>pipeline_runs := upsert_run_flights new (pipeline_runs d)\<rparr>)
         = insert (file_name new) (processed_files d)"
  using upsert_files[OF assms, of "pipeline_runs d"]
  by (simp add: processed_files_def)

lemma processed_files_tick: "processed_files (tick d) = processed_files d"
  by (simp add: processed_files_def tick_def)

lemma finish_file_ledger:
  assumes "finish_file fname started tot S1 (d2, r2) = ((S', d'), res)"
  shows "processed_files d2 \<subseteq> processed_files d'
       \<and> ((\<exists>v. res = Inr v) \<longrightarrow> fname \<in> processed_files d')"
proof (cases r2)
  case (Inl e)
  with assms have "d' = d2" "res = Inl e" by (simp_all add: finish_file_def)
  then show ?thesis by simp
next
  case (Inr lr)
  obtain l r where lr: "lr = (l, r)" by (cases lr)
  let ?new = "\<lparr>file_name = fname, source = ''flights'',
               rows_processed = tot, rows_loaded = l,
               rows_rejected = r, status = ''completed'',
               started_at = started, completed_at = clock d2\<rparr>"
  from assms Inr lr have "d' = tick (d2\<lparr>pipeline_runs := upsert_run_flights ?new (pipeline_runs d2)\<rparr>)"
    by (simp add: finish_file_def)
  moreover have "processed_files (d2\<lparr>pipeline_runs := upsert_run_flights ?new (pipeline_runs d2)\<rparr>)
      = insert fname (processed_files d2)"
    using processed_files_upsert[of ?new d2] by simp
  ultimately have "processed_files d' = insert fname (processed_files d2)"
    by (simp only: processed_files_tick)
  then show ?thesis by auto
qed

lemma process_file_ledger:
  assumes "process_file E B n key (S, d) = ((S', d'), res)"
  shows "processed_files d \<subseteq> processed_files d'
       \<and> ((\<exists>v. res = Inr v) \<longrightarrow> basename key \<in> processed_files d')"
proof (cases "s3_get_csv E key")
  case (Inl e)
  with assms have "d' = tick d" "res = Inl e" by (simp_all add: process_file_def Let_def)
  then show ?thesis by (simp add: processed_files_tick)
next
  case (Inr df)
  obtain d1 r1 where pd: "prepare_dates E df S (tick d) = (d1, r1)"
    by (cases "prepare_dates E df S (tick d)") auto
  from prepare_dates_frame[OF pd] have "pipeline_runs d1 = pipeline_runs (tick d)" by blast
  then have f1: "processed_files d1 = processed_files d"
    by (simp add: processed_files_def tick_def)
  show ?thesis
  proof (cases r1)
    case (Inl e)
    with assms Inr pd have "d' = d1" "res = Inl e" by (simp_all add: process_file_def Let_def)
    with f1 show ?thesis by simp
  next
    case S1: (Inr S1)
    obtain d2 r2 where pc: "process_chunks E B S1 (basename key) 1
        (chunks n (enumerate_rows (df_rows df))) (d1, 0, 0) = (d2, r2)"
      by (cases "process_chunks E B S1 (basename key) 1
        (chunks n (enumerate_rows (df_rows df))) (d1, 0, 0)") auto
    from process_chunks_frame[OF pc] have "pipeline_runs d2 = pipeline_runs d1" by blast
    then have f2: "processed_files d2 = processed_files d1"
      by (simp add: processed_files_def)
    from assms Inr pd S1 pc have fin:
      "finish_file (basename key) (clock d) (length (df_rows df)) S1 (d2, r2) = ((S', d'), res)"
      by (simp add: process_file_def Let_def)
    from finish_file_ledger[OF fin] f1 f2 show ?thesis by simp
  qed
qed

lemma process_files_ledger:
  "process_files E B n keys (S, d) acc = (d', res) \<Longrightarrow>
   processed_files d \<subseteq> processed_files d'
   \<and> ((\<exists>v. res = Inr v) \<longrightarrow> basename ` set keys \<subseteq> processed_files d')"
proof (induction keys arbitrary: S d acc)
  case Nil then show ?case by simp
next
  case (Cons key keys)
  obtain fp tl tr where acc: "acc = (fp, tl, tr)" by (cases acc)
  obtain S1 d1 r1 where pf: "process_file E B n key (S, d) = ((S1, d1), r1)"
    by (cases "process_file E B n key (S, d)") auto
  from process_file_ledger[OF pf] have
    l1: "processed_files d \<subseteq> processed_files d1" and
    l2: "(\<exists>v. r1 = Inr v) \<longrightarrow> basename key \<in> processed_files d1" by blast+
  show ?case
  proof (cases r1)
    case (Inl e)
    from Cons.prems have "d' = d1" "res = Inl e"
      unfolding acc by (simp_all add: pf Inl)
    with l1 show ?thesis by simp
  next
    case (Inr lr)
    obtain l r where lr: "lr = (l, r)" by (cases lr)
    from Cons.prems have
      "process_files E B n keys (S1, d1) (Suc fp, tl + l, tr + r) = (d', res)"
      unfolding acc by (simp add: pf Inr lr)
    from Cons.IH[OF this] have
      i1: "processed_files d1 \<subseteq> processed_files d'" and
      i2: "(\<exists>v. res = Inr v) \<longrightarrow> basename ` set keys \<subseteq> processed_files d'" by blast+
    from l2 Inr have k: "basename key \<in> processed_files d1" by blast
    from l1 i1 have c1: "processed_files d \<subseteq> processed_files d'" by blast
    have c2: "(\<exists>v. res = Inr v) \<longrightarrow> basename ` set (key # keys) \<subseteq> processed_files d'"
      using i1 i2 k by auto
    from c1 c2 show ?thesis by blast
  qed
qed

lemma load_flights_n_rerun:
  assumes "load_flights_n n E B d = (d', Inr r)"
  shows "load_flights_n n E B d' = (d', Inr NoNewFiles)"
proof (cases "new_files E d = []")
  case True
  with assms show ?thesis by (auto simp: load_flights_n_def)
next
  case False
  obtain d2 r2 where
    pf0: "process_files E B n (new_files E d) (take_snapshot d, d) (0, 0, 0) = (d2, r2)"
    by (cases "process_files E B n (new_files E d) (take_snapshot d, d) (0, 0, 0)") auto
  with assms False have "d2 = d'" "\<exists>acc. r2 = Inr acc"
    by (auto simp: load_flights_n_def split: sum.splits prod.splits)
  with pf0 obtain acc where
    pf: "process_files E B n (new_files E d) (take_snapshot d, d) (0, 0, 0) = (d', Inr acc)"
    by auto
  from process_files_ledger[OF pf] have
    a: "processed_files d \<subseteq> processed_files d'" and
    b: "basename ` set (new_files E d) \<subseteq> processed_files d'" by blast+
  have "new_files E d' = []"
  proof (rule ccontr)
    assume "new_files E d' \<noteq> []"
    then obtain f where f: "f \<in> set (new_files E d')" by (cases "new_files E d'") auto
    then have f1: "f \<in> set (filter is_flight_csv (list_files E))" "basename f \<notin> processed_files d'"
      by (auto simp: new_files_def)
    with a have "basename f \<notin> processed_files d" by auto
    with f1 have "f \<in> set (new_files E d)" by (auto simp: new_files_def)
    with b f1 show False by auto
  qed
  then show ?thesis by (simp add: load_flights_n_def)
qed

subsection \<open>The natural key\<close>

lemma insert_flight_distinct:
  "distinct (map natural_key tbl) \<Longrightarrow> distinct (map natural_key (insert_flight t tbl))"
  by (simp add: insert_flight_def)

lemma bulk_insert_distinct:
  "distinct (map natural_key tbl) \<Longrightarrow> distinct (map natural_key (bulk_insert_flights ts tbl))"
  unfolding bulk_insert_flights_def
  by (induction ts arbitrary: tbl) (simp_all add: insert_flight_distinct)

lemma bulk_insert_absorbs:
  "set (map natural_key ts) \<subseteq> set (map natural_key tbl) \<Longrightarrow> bulk_insert_flights ts tbl = tbl"
  unfolding bulk_insert_flights_def
  by (induction ts arbitrary: tbl) (simp_all add: insert_flight_def)

lemma insert_flight_keys:
  "set (map natural_key (insert_flight t tbl)) = insert (natural_key t) (set (map natural_key tbl))"
  by (auto simp: insert_flight_def)

lemma bulk_insert_keys:
  "set (map natural_key (bulk_insert_flights ts tbl)) = set (map natural_key ts) \<union> set (map natural_key tbl)"
  unfolding bulk_insert_flights_def
proof (induction ts arbitrary: tbl)
  case Nil then show ?case by simp
next
  case (Cons t ts)
  have "set (map natural_key (foldl (\<lambda>acc t. insert_flight t acc) tbl (t # ts)))
      = set (map natural_key ts) \<union> set (map natural_key (insert_flight t tbl))"
    using Cons.IH[of "insert_flight t tbl"] by simp
  also have "\<dots> = set (map natural_key (t # ts)) \<union> set (map natural_key tbl)"
    by (simp only: insert_flight_keys) auto
  finally show ?case .
qed

lemma bulk_insert_twice:
  "bulk_insert_flights ts (bulk_insert_flights ts tbl) = bulk_insert_flights ts tbl"
proof (rule bulk_insert_absorbs)
  show "set (map natural_key ts) \<subseteq> set (map natural_key (bulk_insert_flights ts tbl))"
    unfolding bulk_insert_keys by blast
qed

lemma write_chunk_distinct:
  "write_chunk E fname k vs rs d = Inr d' \<Longrightarrow> distinct (map natural_key (flights d)) \<Longrightarrow>
   distinct (map natural_key (flights d'))"
  by (cases "write_error E fname k") (auto simp: write_chunk_def bulk_insert_distinct)

lemma process_chunks_distinct:
  "process_chunks E B S fname k cs (d, l, r) = (d', res) \<Longrightarrow>
   distinct (map natural_key (flights d)) \<Longrightarrow> distinct (map natural_key (flights d'))"
proof (induction cs arbitrary: d l r k)
  case Nil then show ?case by simp
next
  case (Cons c cs)
  show ?case
  proof (cases "validate_chunk B S fname c")
    case (Inl e) with Cons.prems show ?thesis by simp
  next
    case (Inr p)
    obtain vs rs where p: "p = (vs, rs)" by (cases p)
    show ?thesis
    proof (cases "write_chunk E fname k vs rs d")
      case (Inl e) with Cons.prems Inr p show ?thesis by simp
    next
      case w: (Inr d2)
      with Cons.prems Inr p have
        "process_chunks E B S fname (Suc k) cs (d2, l + length vs, r + length rs) = (d', res)"
        by simp
      from Cons.IH[OF this write_chunk_distinct[OF w Cons.prems(2)]] show ?thesis .
    qed
  qed
qed

lemma finish_file_flights:
  "finish_file fname started tot S1 (d2, r2) = ((S', d'), res) \<Longrightarrow> flights d' = flights d2"
proof (cases r2)
  case (Inl e)
  assume "finish_file fname started tot S1 (d2, r2) = ((S', d'), res)"
  with Inl show ?thesis by (simp add: finish_file_def)
next
  case (Inr lr)
  assume a: "finish_file fname started tot S1 (d2, r2) = ((S', d'), res)"
  obtain l r where lr: "lr = (l, r)" by (cases lr)
  from a Inr lr show ?thesis by (auto simp: finish_file_def tick_def)
qed

lemma process_file_distinct:
  assumes "process_file E B n key (S, d) = ((S', d'), res)"
    and dis: "distinct (map natural_key (flights d))"
  shows "distinct (map natural_key (flights d'))"
proof (cases "s3_get_csv E key")
  case (Inl e)
  with assms have "d' = tick d" by (simp add: process_file_def Let_def)
  with dis show ?thesis by (simp add: tick_def)
next
  case (Inr df)
  obtain d1 r1 where pd: "prepare_dates E df S (tick d) = (d1, r1)"
    by (cases "prepare_dates E df S (tick d)") auto
  from prepare_dates_frame[OF pd] have "flights d1 = flights (tick d)" by blast
  with dis have dis1: "distinct (map natural_key (flights d1))" by (simp add: tick_def)
  show ?thesis
  proof (cases r1)
    case (Inl e)
    with assms Inr pd have "d' = d1" by (simp add: process_file_def Let_def)
    with dis1 show ?thesis by simp
  next
    case S1: (Inr S1)
    obtain d2 r2 where pc: "process_chunks E B S1 (basename key) 1
        (chunks n (enumerate_rows (df_rows df))) (d1, 0, 0) = (d2, r2)"
      by (cases "process_chunks E B S1 (basename key) 1
        (chunks n (enumerate_rows (df_rows df))) (d1, 0, 0)") auto
    from assms Inr pd S1 pc have fin:
      "finish_file (basename key) (clock d) (length (df_rows df)) S1 (d2, r2) = ((S', d'), res)"
      by (simp add: process_file_def Let_def)
    from process_chunks_distinct[OF pc dis1] finish_file_flights[OF fin] show ?thesis by simp
  qed
qed

lemma process_files_distinct:
  "process_files E B n keys (S, d) acc = (d', res) \<Longrightarrow>
   distinct (map natural_key (flights d)) \<Longrightarrow> distinct (map natural_key (flights d'))"
proof (induction keys arbitrary: S d acc)
  case Nil then show ?case by simp
next
  case (Cons key keys)
  obtain fp tl tr where acc: "acc = (fp, tl, tr)" by (cases acc)
  obtain S1 d1 r1 where pf: "process_file E B n key (S, d) = ((S1, d1), r1)"
    by (cases "process_file E B n key (S, d)") auto
  note dis1 = process_file_distinct[OF pf Cons.prems(2)]
  show ?case
  proof (cases r1)
    case (Inl e)
    from Cons.prems(1) have "d' = d1" unfolding acc by (simp add: pf Inl)
    with dis1 show ?thesis by simp
  next
    case (Inr lr)
    obtain l r where lr: "lr = (l, r)" by (cases lr)
    from Cons.prems(1) have
      "process_files E B n keys (S1, d1) (Suc fp, tl + l, tr + r) = (d', res)"
      unfolding acc by (simp add: pf Inr lr)
    from Cons.IH[OF this dis1] show ?thesis .
  qed
qed

lemma load_flights_n_distinct:
  assumes "distinct (map natural_key (flights d))"
  shows "distinct (map natural_key (flights (fst (load_flights_n n E B d))))"
proof (cases "new_files E d = []")
  case True
  with assms show ?thesis by (simp add: load_flights_n_def)
next
  case False
  obtain d2 r2 where
    pf: "process_files E B n (new_files E d) (take_snapshot d, d) (0, 0, 0) = (d2, r2)"
    by (cases "process_files E B n (new_files E d) (take_snapshot d, d) (0, 0, 0)") auto
  have "fst (load_flights_n n E B d) = d2"
    using False pf by (cases r2) (auto simp: load_flights_n_def split: prod.splits)
  with process_files_distinct[OF pf assms] show ?thesis by simp
qed
subsection \<open>A sample run\<close>

lemma chunks_single: "0 < n \<Longrightarrow> xs \<noteq> [] \<Longrightarrow> length xs \<le> n \<Longrightarrow> chunks n xs = [xs]"
  by (subst chunks.simps, subst chunks.simps) simp

lemma chunks_nil: "chunks n [] = []"
  by (subst chunks.simps) simp

lemma new_files_sample: "new_files E0 db_init = [''raw/jan.csv'']"
  by (simp add: new_files_def list_files_def E0_def is_flight_csv_def suffix_def lower_char_def
      processed_files_def db_init_def db_empty_def basename_def)

lemma snapshot_sample: "take_snapshot db_init = S0"
  by (simp add: take_snapshot_def db_init_def db_empty_def S0_def date_id_derive iso_sample)

lemma coerce_sample: "coerce_row B0 row_ok ''ATL'' ''JFK'' ''DL'' ''2024-01-06'' = Inr flight_ok"
  by (simp add: coerce_row_def c_str_def c_int_def c_float_def c_bool_def safe_str_def
      safe_int_def safe_float_def safe_bool_def row_get_def row_ok_def pd_isna_def is_empty_str_def
      py_float_def B0_def py_int_of_float_def caught_def sql_str_def trunc_rat_def flight_ok_def)

lemma validate_ok_sample: "validate_row B0 S0 ''jan.csv'' (0, row_ok) = Inr (Accepted flight_ok)"
  by (simp add: validate_row_def row_keys_ok rejection_reasons_def S0_def coerce_sample)

lemma validate_bad_sample: "validate_row B0 S0 ''jan.csv'' (Suc 0, row_bad) = Inr (Rejected rejected_bad)"
  by (simp add: validate_row_def row_keys_bad rejection_reasons_def S0_def rejected_bad_def)

lemma enumerate_sample: "enumerate_rows [row_ok, row_bad] = [(0, row_ok), (Suc 0, row_bad)]"
  by (simp add: enumerate_rows_def upt_rec)

lemma validate_chunk_sample:
  "validate_chunk B0 S0 ''jan.csv'' [(0, row_ok), (Suc 0, row_bad)] = Inr ([flight_ok], [rejected_bad])"
  by (simp add: validate_ok_sample validate_bad_sample)
lemma prepare_sample_init: "prepare_dates E0 df0 S0 (tick db_init) = (tick db_init, Inr S0)"
  by (simp add: prepare_dates_def df_column_def df0_def E0_def row_get_def row_ok_def row_bad_def
      date_str_def iso_sample S0_def)

lemma write_chunk_sample:
  "write_chunk E0 ''jan.csv'' (Suc 0) [flight_ok] [rejected_bad] (tick db_init) =
     Inr ((tick db_init)\<lparr>flights := [flight_ok], rejected_records := [rejected_bad]\<rparr>)"
  by (simp add: write_chunk_def E0_def bulk_insert_flights_def insert_flight_def tick_def
      db_init_def db_empty_def)

lemma process_chunks_sample:
  "process_chunks E0 B0 S0 ''jan.csv'' (Suc 0) [[(0, row_ok), (Suc 0, row_bad)]] (tick db_init, 0, 0) =
     ((tick db_init)\<lparr>flights := [flight_ok], rejected_records := [rejected_bad]\<rparr>, Inr (1, 1))"
  by (simp add: validate_ok_sample validate_bad_sample write_chunk_sample)

lemma process_file_sample:
  "2 \<le> n \<Longrightarrow> process_file E0 B0 n ''raw/jan.csv'' (S0, db_init) = ((S0, db_loaded), Inr (1, 1))"
proof -
  assume n: "2 \<le> n"
  have g: "s3_get_csv E0 ''raw/jan.csv'' = Inr df0" by (simp add: E0_def)
  have b: "basename ''raw/jan.csv'' = ''jan.csv''" by (simp add: basename_def)
  have r: "df_rows df0 = [row_ok, row_bad]" by (simp add: df0_def)
  have c: "chunks n (enumerate_rows [row_ok, row_bad]) = [[(0, row_ok), (Suc 0, row_bad)]]"
    using n by (simp add: enumerate_sample chunks_single)
  have f: "finish_file ''jan.csv'' (clock db_init) (Suc (Suc 0)) S0
       ((tick db_init)\<lparr>flights := [flight_ok], rejected_records := [rejected_bad]\<rparr>, Inr (Suc 0, Suc 0))
     = ((S0, db_loaded), Inr (Suc 0, Suc 0))"
    by (simp add: finish_file_def upsert_run_flights_def tick_def db_loaded_def db_init_def
        db_empty_def)
  show ?thesis
    by (simp add: process_file_def Let_def g b prepare_sample_init c r f
        validate_ok_sample validate_bad_sample write_chunk_sample)
qed

lemma load_sample:
  "2 \<le> n \<Longrightarrow> load_flights_n n E0 B0 db_init = (db_loaded, Inr (Loaded 1 1 1))"
  by (simp add: load_flights_n_def new_files_sample snapshot_sample process_file_sample)
text \<open>
  C2. A second run of \<open>load_flights\<close> on unchanged storage, after a run that completed,
  inserts no fact row: every file has a completed \<open>flights\<close> ledger row for its name and
  is left out of \<open>new_files\<close>, so the run returns at once and the database is the same.
  Rows submitted again are absorbed by the conflict target of the bulk insert, and no
  two rows of the fact table share the natural key (flight\_date, carrier\_code,
  flight\_number, origin\_airport).
\<close>

theorem load_flights_idempotent:
  "(load_flights E B d = (d', Inr r) \<longrightarrow>
      load_flights E B d' = (d', Inr NoNewFiles) \<and> new_files E d' = [])
   \<and> (basename f \<in> processed_files d \<longrightarrow> f \<notin> set (new_files E d))
   \<and> bulk_insert_flights ts (bulk_insert_flights ts tbl) = bulk_insert_flights ts tbl
   \<and> (set (map natural_key ts) \<subseteq> set (map natural_key tbl) \<longrightarrow> bulk_insert_flights ts tbl = tbl)
   \<and> (distinct (map natural_key tbl) \<longrightarrow> distinct (map natural_key (bulk_insert_flights ts tbl)))
   \<and> (distinct (map natural_key (flights d)) \<longrightarrow>
        distinct (map natural_key (flights (fst (load_flights E B d)))))"
proof (intro conjI impI)
  assume a: "load_flights E B d = (d', Inr r)"
  then have b: "load_flights_n CHUNK_SIZE E B d' = (d', Inr NoNewFiles)"
    unfolding load_flights_def by (rule load_flights_n_rerun)
  then show "load_flights E B d' = (d', Inr NoNewFiles)" by (simp add: load_flights_def)
  show "new_files E d' = []"
  proof (rule ccontr)
    assume ne: "new_files E d' \<noteq> []"
    obtain d2 r2 where "process_files E B CHUNK_SIZE (new_files E d') (take_snapshot d', d') (0, 0, 0) = (d2, r2)"
      by (cases "process_files E B CHUNK_SIZE (new_files E d') (take_snapshot d', d') (0, 0, 0)") auto
    with b ne show False
      by (cases r2) (auto simp: load_flights_n_def split: prod.splits)
  qed
next
  assume "basename f \<in> processed_files d"
  then show "f \<notin> set (new_files E d)" by (simp add: new_files_def)
next
  show "bulk_insert_flights ts (bulk_insert_flights ts tbl) = bulk_insert_flights ts tbl"
    by (rule bulk_insert_twice)
next
  assume "set (map natural_key ts) \<subseteq> set (map natural_key tbl)"
  then show "bulk_insert_flights ts tbl = tbl" by (rule bulk_insert_absorbs)
next
  assume "distinct (map natural_key tbl)"
  then show "distinct (map natural_key (bulk_insert_flights ts tbl))" by (rule bulk_insert_distinct)
next
  assume "distinct (map natural_key (flights d))"
  then show "distinct (map natural_key (flights (fst (load_flights E B d))))"
    unfolding load_flights_def by (rule load_flights_n_distinct)
qed

theorem load_flights_idempotent_witness:
  "load_flights E0 B0 db_init = (db_loaded, Inr (Loaded 1 1 1))
   \<and> load_flights E0 B0 db_loaded = (db_loaded, Inr NoNewFiles)
   \<and> flights db_loaded = [flight_ok]
   \<and> basename ''raw/jan.csv'' \<in> processed_files db_loaded
   \<and> bulk_insert_flights [flight_ok] (flights db_loaded) = flights db_loaded
   \<and> distinct (map natural_key (flights db_init))
   \<and> distinct (map natural_key (flights (fst (load_flights E0 B0 db_init))))"
proof -
  have l: "load_flights E0 B0 db_init = (db_loaded, Inr (Loaded 1 1 1))"
    by (simp add: load_flights_def CHUNK_SIZE_def load_sample)
  have f: "flights db_loaded = [flight_ok]" by (simp add: db_loaded_def)
  have p: "basename ''raw/jan.csv'' \<in> processed_files db_loaded"
    by (simp add: basename_def processed_files_def db_loaded_def)
  have k: "set (map natural_key [flight_ok]) \<subseteq> set (map natural_key (flights db_loaded))"
    by (simp add: f)
  have di: "distinct (map natural_key (flights db_init))" by (simp add: db_init_def db_empty_def)
  note t = load_flights_idempotent[of E0 B0 db_init db_loaded "Loaded 1 1 1" "''raw/jan.csv''"
      "[flight_ok]" "flights db_loaded"]
  from t l have "load_flights E0 B0 db_loaded = (db_loaded, Inr NoNewFiles)" by blast
  moreover from t k have "bulk_insert_flights [flight_ok] (flights db_loaded) = flights db_loaded"
    by blast
  moreover from t di have "distinct (map natural_key (flights (fst (load_flights E0 B0 db_init))))"
    by blast
  ultimately show ?thesis using l f p di by blast
qed

section \<open>Errors while a file is loaded\<close>

lemma insert_flight_keeps: "set tbl \<subseteq> set (insert_flight t tbl)"
  by (auto simp: insert_flight_def)

lemma bulk_insert_keeps: "set tbl \<subseteq> set (bulk_insert_flights ts tbl)"
  unfolding bulk_insert_flights_def
proof (induction ts arbitrary: tbl)
  case Nil then show ?case by simp
next
  case (Cons t ts)
  have "set tbl \<subseteq> set (insert_flight t tbl)" by (rule insert_flight_keeps)
  also have "\<dots> \<subseteq> set (foldl (\<lambda>acc t. insert_flight t acc) (insert_flight t tbl) ts)"
    by (rule Cons.IH)
  finally show ?case by simp
qed

lemma write_chunk_keeps:
  "write_chunk E fname k vs rs d = Inr d' \<Longrightarrow>
   set (flights d) \<subseteq> set (flights d') \<and> prefix (rejected_records d) (rejected_records d')"
  using bulk_insert_keeps[of "flights d" vs]
  by (cases "write_error E fname k") (auto simp: write_chunk_def)

lemma process_chunks_keeps:
  "process_chunks E B S fname k cs (d, l, r) = (d', res) \<Longrightarrow>
   set (flights d) \<subseteq> set (flights d') \<and> prefix (rejected_records d) (rejected_records d')"
proof (induction cs arbitrary: d l r k)
  case Nil then show ?case by simp
next
  case (Cons c cs)
  show ?case
  proof (cases "validate_chunk B S fname c")
    case (Inl e) with Cons.prems show ?thesis by simp
  next
    case (Inr p)
    obtain vs rs where p: "p = (vs, rs)" by (cases p)
    show ?thesis
    proof (cases "write_chunk E fname k vs rs d")
      case (Inl e) with Cons.prems Inr p show ?thesis by simp
    next
      case w: (Inr d2)
      with Cons.prems Inr p have
        "process_chunks E B S fname (Suc k) cs (d2, l + length vs, r + length rs) = (d', res)"
        by simp
      from Cons.IH[OF this] write_chunk_keeps[OF w] show ?thesis
        by (meson order_trans prefix_order.order_trans)
    qed
  qed
qed

lemma finish_file_error:
  "finish_file fname started tot S1 (d2, r2) = ((S', d'), Inl e) \<Longrightarrow> d' = d2 \<and> r2 = Inl e"
proof (cases r2)
  case (Inl e')
  assume "finish_file fname started tot S1 (d2, r2) = ((S', d'), Inl e)"
  with Inl show ?thesis by (simp add: finish_file_def)
next
  case (Inr lr)
  assume a: "finish_file fname started tot S1 (d2, r2) = ((S', d'), Inl e)"
  obtain l r where lr: "lr = (l, r)" by (cases lr)
  from a Inr lr show ?thesis by (simp add: finish_file_def)
qed

lemma process_file_error:
  assumes "process_file E B n key (S, d) = ((S', d'), Inl e)"
  shows "pipeline_runs d' = pipeline_runs d \<and> set (flights d) \<subseteq> set (flights d')
         \<and> prefix (rejected_records d) (rejected_records d')"
proof (cases "s3_get_csv E key")
  case (Inl e1)
  with assms have "d' = tick d" by (simp add: process_file_def Let_def)
  then show ?thesis by (simp add: tick_def)
next
  case (Inr df)
  obtain d1 r1 where pd: "prepare_dates E df S (tick d) = (d1, r1)"
    by (cases "prepare_dates E df S (tick d)") auto
  from prepare_dates_frame[OF pd] have f1: "pipeline_runs d1 = pipeline_runs d"
    "flights d1 = flights d" "rejected_records d1 = rejected_records d"
    by (simp_all add: tick_def)
  show ?thesis
  proof (cases r1)
    case (Inl e1)
    with assms Inr pd have "d' = d1" by (simp add: process_file_def Let_def)
    with f1 show ?thesis by simp
  next
    case S1: (Inr S1)
    obtain d2 r2 where pc: "process_chunks E B S1 (basename key) 1
        (chunks n (enumerate_rows (df_rows df))) (d1, 0, 0) = (d2, r2)"
      by (cases "process_chunks E B S1 (basename key) 1
        (chunks n (enumerate_rows (df_rows df))) (d1, 0, 0)") auto
    from assms Inr pd S1 pc have fin:
      "finish_file (basename key) (clock d) (length (df_rows df)) S1 (d2, r2) = ((S', d'), Inl e)"
      by (simp add: process_file_def Let_def)
    from finish_file_error[OF fin] have "d' = d2" by simp
    with process_chunks_frame[OF pc] process_chunks_keeps[OF pc] f1 show ?thesis by simp
  qed
qed

lemma chunks_step: "0 < n \<Longrightarrow> xs \<noteq> [] \<Longrightarrow> chunks n xs = take n xs # chunks n (drop n xs)"
  by (subst chunks.simps) simp

lemma list_down_sample: "load_flights E_list_down B0 db_init = (db_init, Inr NoNewFiles)"
  by (simp add: load_flights_def load_flights_n_def new_files_def list_files_def E_list_down_def)

lemma validate_chunk_ok_sample:
  "validate_chunk B0 S0 ''jan.csv'' [(0, row_ok)] = Inr ([flight_ok], [])"
  by (simp add: validate_ok_sample)

lemma validate_chunk_bad_sample:
  "validate_chunk B0 S0 ''jan.csv'' [(Suc 0, row_bad)] = Inr ([], [rejected_bad])"
  by (simp add: validate_bad_sample)

lemma write_first_sample:
  "write_chunk E_write_fails ''jan.csv'' (Suc 0) [flight_ok] [] (tick db_init) = Inr db_partial"
  by (simp add: write_chunk_def E_write_fails_def E0_def bulk_insert_flights_def insert_flight_def
      tick_def db_init_def db_empty_def db_partial_def)

lemma write_second_sample: "write_error E_write_fails ''jan.csv'' (Suc (Suc 0)) = Some DatabaseError"
  by (simp add: E_write_fails_def)

lemma write_second_chunk:
  "write_chunk E_write_fails ''jan.csv'' (Suc (Suc 0)) vs rs d = Inl DatabaseError"
  by (simp add: write_chunk_def write_second_sample)

lemma process_file_fail_sample:
  "process_file E_write_fails B0 1 ''raw/jan.csv'' (S0, db_init) = ((S0, db_partial), Inl DatabaseError)"
proof -
  have g: "s3_get_csv E_write_fails ''raw/jan.csv'' = Inr df0" by (simp add: E_write_fails_def E0_def)
  have b: "basename ''raw/jan.csv'' = ''jan.csv''" by (simp add: basename_def)
  have r: "df_rows df0 = [row_ok, row_bad]" by (simp add: df0_def)
  have p: "prepare_dates E_write_fails df0 S0 (tick db_init) = (tick db_init, Inr S0)"
    by (simp add: prepare_dates_def df_column_def df0_def E_write_fails_def E0_def row_get_def
        row_ok_def row_bad_def date_str_def iso_sample S0_def)
  have c: "chunks (Suc 0) (enumerate_rows [row_ok, row_bad]) = [[(0, row_ok)], [(Suc 0, row_bad)]]"
    by (simp add: enumerate_sample chunks_step chunks_nil)
  show ?thesis
    by (simp add: process_file_def Let_def g b p c r finish_file_def
        validate_ok_sample validate_bad_sample write_first_sample write_second_chunk)
qed

text \<open>
  C6. A structural error while \<open>load_flights\<close> processes a file aborts the stage with
  the error raised, leaves the ledger row of the file unwritten, and keeps the rows that
  earlier chunks of the file committed.  This holds for an error while an object is
  fetched and for an error during a chunk write.  It does not hold for an error while
  the bucket is listed: \<open>list_files\<close> catches it and returns the empty list, and
  \<open>load_flights\<close> returns normally with no file processed.
\<close>

theorem load_flights_structural_errors:
  "(s3_list E = Inl e0 \<longrightarrow> load_flights E B d = (d, Inr NoNewFiles))
   \<and> (s3_get_csv E key = Inl e1 \<longrightarrow> process_file E B n key (S, d) = ((S, tick d), Inl e1))
   \<and> (validate_chunk B S fname c = Inr (vs, rs) \<and> write_error E fname k = Some e2 \<longrightarrow>
        process_chunks E B S fname k (c # rest) (dk, l, r) = (dk, Inl e2))
   \<and> (validate_chunk B S fname c1 = Inr (vs1, rs1) \<and> write_chunk E fname k vs1 rs1 dk = Inr d1 \<and>
        validate_chunk B S fname c2 = Inr (vs2, rs2) \<and> write_error E fname (Suc k) = Some e3 \<longrightarrow>
        process_chunks E B S fname k (c1 # c2 # rest) (dk, l, r) = (d1, Inl e3) \<and>
        flights d1 = bulk_insert_flights vs1 (flights dk) \<and>
        rejected_records d1 = rejected_records dk @ rs1)
   \<and> (process_file E B n key (S, d) = ((S', d'), Inl e4) \<longrightarrow>
        pipeline_runs d' = pipeline_runs d \<and> set (flights d) \<subseteq> set (flights d') \<and>
        prefix (rejected_records d) (rejected_records d') \<and>
        process_files E B n (key # keys) (S, d) (fp, lo, rj) = (d', Inl e4))
   \<and> (new_files E d \<noteq> [] \<and>
        process_files E B CHUNK_SIZE (new_files E d) (take_snapshot d, d) (0, 0, 0) = (d'', Inl e5) \<longrightarrow>
        load_flights E B d = (d'', Inl e5))
   \<and> (s3_get_csv E key = Inr df \<and> prepare_dates E df S (tick d) = (dp, Inr Sp) \<and>
        process_chunks E B Sp (basename key) 1 (chunks n (enumerate_rows (df_rows df))) (dp, 0, 0)
          = (dc, Inl e6) \<longrightarrow>
        process_file E B n key (S, d) = ((Sp, dc), Inl e6))"
proof (intro conjI impI)
  assume "s3_list E = Inl e0"
  then show "load_flights E B d = (d, Inr NoNewFiles)"
    by (simp add: load_flights_def load_flights_n_def new_files_def list_files_def)
next
  assume "s3_get_csv E key = Inl e1"
  then show "process_file E B n key (S, d) = ((S, tick d), Inl e1)"
    by (simp add: process_file_def Let_def)
next
  assume "validate_chunk B S fname c = Inr (vs, rs) \<and> write_error E fname k = Some e2"
  then show "process_chunks E B S fname k (c # rest) (dk, l, r) = (dk, Inl e2)"
    by (simp add: write_chunk_def)
next
  assume a: "validate_chunk B S fname c1 = Inr (vs1, rs1) \<and> write_chunk E fname k vs1 rs1 dk = Inr d1 \<and>
        validate_chunk B S fname c2 = Inr (vs2, rs2) \<and> write_error E fname (Suc k) = Some e3"
  then show "process_chunks E B S fname k (c1 # c2 # rest) (dk, l, r) = (d1, Inl e3)"
    by (simp add: write_chunk_def)
  from a have w: "write_chunk E fname k vs1 rs1 dk = Inr d1" by simp
  then show "flights d1 = bulk_insert_flights vs1 (flights dk)"
    by (cases "write_error E fname k") (auto simp: write_chunk_def)
  from w show "rejected_records d1 = rejected_records dk @ rs1"
    by (cases "write_error E fname k") (auto simp: write_chunk_def)
next
  assume a: "process_file E B n key (S, d) = ((S', d'), Inl e4)"
  from process_file_error[OF a]
  show "pipeline_runs d' = pipeline_runs d" "set (flights d) \<subseteq> set (flights d')"
    "prefix (rejected_records d) (rejected_records d')" by blast+
  from a show "process_files E B n (key # keys) (S, d) (fp, lo, rj) = (d', Inl e4)" by simp
next
  assume "new_files E d \<noteq> [] \<and>
        process_files E B CHUNK_SIZE (new_files E d) (take_snapshot d, d) (0, 0, 0) = (d'', Inl e5)"
  then show "load_flights E B d = (d'', Inl e5)"
    by (simp add: load_flights_def load_flights_n_def)
next
  assume "s3_get_csv E key = Inr df \<and> prepare_dates E df S (tick d) = (dp, Inr Sp) \<and>
        process_chunks E B Sp (basename key) 1 (chunks n (enumerate_rows (df_rows df))) (dp, 0, 0)
          = (dc, Inl e6)"
  then show "process_file E B n key (S, d) = ((Sp, dc), Inl e6)"
    by (simp add: process_file_def Let_def finish_file_def)
qed

theorem load_flights_structural_errors_witness:
  "s3_list E_list_down = Inl ConnectionError
   \<and> load_flights E_list_down B0 db_init = (db_init, Inr NoNewFiles)
   \<and> s3_get_csv E0 ''raw/feb.csv'' = Inl ConnectionError
   \<and> process_file E0 B0 1 ''raw/feb.csv'' (S0, db_init) = ((S0, tick db_init), Inl ConnectionError)
   \<and> process_chunks E_write_fails B0 S0 ''jan.csv'' 1 [[(0, row_ok)], [(1, row_bad)]] (tick db_init, 0, 0)
       = (db_partial, Inl DatabaseError)
   \<and> flights db_partial = [flight_ok]
   \<and> process_file E_write_fails B0 1 ''raw/jan.csv'' (S0, db_init) = ((S0, db_partial), Inl DatabaseError)
   \<and> pipeline_runs db_partial = pipeline_runs db_init
   \<and> process_files E_write_fails B0 1 [''raw/jan.csv''] (S0, db_init) (0, 0, 0) = (db_partial, Inl DatabaseError)"
proof -
  have h0: "s3_list E_list_down = Inl ConnectionError" by (simp add: E_list_down_def)
  have h1: "s3_get_csv E0 ''raw/feb.csv'' = Inl ConnectionError" by (simp add: E0_def)
  note t0 = load_flights_structural_errors[where E = E_list_down and ?e0.0 = ConnectionError
      and B = B0 and d = db_init]
  from t0[THEN conjunct1, THEN mp, OF h0]
  have c0: "load_flights E_list_down B0 db_init = (db_init, Inr NoNewFiles)" .
  note t1 = load_flights_structural_errors[where E = E0 and key = "''raw/feb.csv''"
      and ?e1.0 = ConnectionError and n = 1 and S = S0 and d = db_init and B = B0]
  from t1[THEN conjunct2, THEN conjunct1, THEN mp, OF h1]
  have c1: "process_file E0 B0 1 ''raw/feb.csv'' (S0, db_init) = ((S0, tick db_init), Inl ConnectionError)" .
  note t2 = load_flights_structural_errors[where E = E_write_fails and B = B0
      and key = "''raw/jan.csv''" and n = 1 and S = S0 and fname = "''jan.csv''"
      and ?c1.0 = "[(0, row_ok)]" and ?vs1.0 = "[flight_ok]" and ?rs1.0 = "[]" and k = "Suc 0"
      and dk = "tick db_init" and ?d1.0 = db_partial and ?c2.0 = "[(Suc 0, row_bad)]"
      and ?vs2.0 = "[]" and ?rs2.0 = "[rejected_bad]" and ?e3.0 = DatabaseError and rest = "[]"
      and l = 0 and r = 0 and d = db_init and S' = S0 and d' = db_partial
      and ?e4.0 = DatabaseError and keys = "[]" and fp = 0 and lo = 0 and rj = 0]
  have c2: "process_chunks E_write_fails B0 S0 ''jan.csv'' (Suc 0) [[(0, row_ok)], [(Suc 0, row_bad)]] (tick db_init, 0, 0)
       = (db_partial, Inl DatabaseError)"
    using t2[THEN conjunct2, THEN conjunct2, THEN conjunct2, THEN conjunct1]
      validate_chunk_ok_sample validate_chunk_bad_sample write_first_sample write_second_sample
    by simp
  have c3: "pipeline_runs db_partial = pipeline_runs db_init
     \<and> process_files E_write_fails B0 1 [''raw/jan.csv''] (S0, db_init) (0, 0, 0) = (db_partial, Inl DatabaseError)"
    using t2[THEN conjunct2, THEN conjunct2, THEN conjunct2, THEN conjunct2, THEN conjunct1]
      process_file_fail_sample by simp
  have f: "flights db_partial = [flight_ok]" by (simp add: db_partial_def)
  from h0 c0 h1 c1 c2 c3 f process_file_fail_sample show ?thesis by simp
qed

theorem listing_error_not_raised:
  "s3_list E_list_down = Inl ConnectionError
   \<and> \<not> (\<exists>d'. load_flights E_list_down B0 db_init = (d', Inl ConnectionError))
   \<and> load_flights E_list_down B0 db_init = (db_init, Inr NoNewFiles)"
proof -
  have "s3_list E_list_down = Inl ConnectionError" by (simp add: E_list_down_def)
  then show ?thesis by (simp add: list_down_sample)
qed

section \<open>Duplicate airport codes\<close>




lemma insert_airports_count:
  "insert_airports B ls (tbl, k) = Inr (tbl', k') \<Longrightarrow> k' = k + length ls"
proof (induction ls arbitrary: tbl k)
  case Nil then show ?case by simp
next
  case (Cons l ls)
  from Cons.prems obtain a where a: "to_airport B l = Inr a"
    and r: "insert_airports B ls (insert_airport a tbl, Suc k) = Inr (tbl', k')"
    by (cases "to_airport B l") auto
  from Cons.IH[OF r] show ?case by simp
qed








lemma load_airports_unfold:
  assumes "s3_get_airports E = Inr lines" "load_airports E B d = (d', Inr n)"
  shows "\<exists>tbl. insert_airports B (drop_duplicates [] (filter valid_iata lines)) (airports d, 0) = Inr (tbl, n)
      \<and> airports d' = tbl"
proof (cases "insert_airports B (drop_duplicates [] (filter valid_iata lines)) (airports d, 0)")
  case (Inl e)
  with assms show ?thesis by (simp add: load_airports_def Let_def)
next
  case (Inr p)
  obtain tbl k where p: "p = (tbl, k)" by (cases p)
  with assms Inr show ?thesis by (auto simp: load_airports_def Let_def tick_def)
qed
lemma valid_samples: "\<not> valid_iata line_none" "valid_iata line_atl" "valid_iata line_atl2"
  by (simp_all add: valid_iata_def line_none_def line_atl_def line_atl2_def pd_isna_def)

lemma to_airport_atl: "to_airport B0 line_atl = Inr airport_atl"
  by (simp add: to_airport_def line_atl_def pd_isna_def py_int_def py_str_def airport_atl_def)

lemma load_airports_eval:
  assumes "s3_get_airports E = Inr lines"
    and "drop_duplicates [] (filter valid_iata lines) = df"
    and "insert_airports B df (airports d, 0) = Inr (tbl, k)"
  shows "load_airports E B d =
     ((tick (tick (d\<lparr>airports := tbl\<rparr>)))\<lparr>pipeline_runs := upsert_run_basic
          \<lparr>file_name = ''airports.dat'', source = ''airports'',
           rows_processed = length df, rows_loaded = k, rows_rejected = 0,
           status = ''completed'', started_at = clock d, completed_at = Suc (clock d)\<rparr>
          (pipeline_runs d)\<rparr>, Inr k)"
  using assms by (simp add: load_airports_def Let_def tick_def)

lemma load_airports_sample: "load_airports E0 B0 db_empty = (db_air, Inr 1)"
proof -
  have g: "s3_get_airports E0 = Inr [line_none, line_atl, line_atl2]"
    by (simp add: E0_def airport_lines0_def)
  have c: "al_code line_atl2 = al_code line_atl" by (simp add: line_atl2_def)
  have df: "drop_duplicates [] (filter valid_iata [line_none, line_atl, line_atl2]) = [line_atl]"
    by (simp add: valid_samples c)
  have i: "insert_airports B0 [line_atl] (airports db_empty, 0) = Inr ([airport_atl], Suc 0)"
    by (simp add: to_airport_atl insert_airport_def db_empty_def)
  show ?thesis
    unfolding load_airports_eval[OF g df i]
    by (simp add: tick_def upsert_run_basic_def db_air_def db_empty_def)
qed



section \<open>Re-running the weather loader\<close>



lemma insert_weather_counts:
  "insert_weather E existing obs (tbl, l, s) = (tbl', l', s') \<Longrightarrow>
   l' = l + length (filter (\<lambda>ob. obs_key ob \<notin> existing) obs) \<and>
   s' = s + length (filter (\<lambda>ob. obs_key ob \<in> existing) obs)"
proof (induction obs arbitrary: tbl l s)
  case Nil then show ?case by simp
next
  case (Cons ob obs)
  show ?case
  proof (cases "obs_key ob \<in> existing")
    case True
    with Cons.prems have "insert_weather E existing obs (tbl, l, Suc s) = (tbl', l', s')" by simp
    from Cons.IH[OF this] True show ?thesis by simp
  next
    case False
    with Cons.prems have
      "insert_weather E existing obs (insert_observation (stored E ob) tbl, Suc l, s) = (tbl', l', s')"
      by simp
    from Cons.IH[OF this] False show ?thesis by simp
  qed
qed


lemma load_weather_eval:
  assumes "filter (\<lambda>a. a \<in> set get_mapped_airports) (remdups (map airport_code (airports d))) = aps"
    and "aps \<noteq> []" and "date_dim d \<noteq> []"
    and "generate_weather_data E aps (map date_id (date_dim d)) = data"
    and "insert_weather E (set (map obs_key (weather_observations d))) data
           (weather_observations d, 0, 0) = (tbl, l, s)"
  shows "load_weather E d =
     ((tick (tick d\<lparr>weather_observations := tbl\<rparr>))\<lparr>pipeline_runs := upsert_run_basic
          \<lparr>file_name = ''iem_hourly_weather'', source = ''weather'',
           rows_processed = length data, rows_loaded = l, rows_rejected = 0,
           status = ''completed'', started_at = clock d, completed_at = Suc (clock d)\<rparr>
          (pipeline_runs d)\<rparr>, WeatherLoaded l s)"
  using assms by (simp add: load_weather_def Let_def tick_def)

lemma load_weather_cases:
  "load_weather E d = (tick d, NothingToLoad) \<or>
   (\<exists>data tbl l s.
      insert_weather E (set (map obs_key (weather_observations d))) data
           (weather_observations d, 0, 0) = (tbl, l, s) \<and>
      weather_observations (fst (load_weather E d)) = tbl \<and>
      snd (load_weather E d) = WeatherLoaded l s \<and>
      pipeline_runs (fst (load_weather E d)) = upsert_run_basic
          \<lparr>file_name = ''iem_hourly_weather'', source = ''weather'',
           rows_processed = length data, rows_loaded = l, rows_rejected = 0,
           status = ''completed'', started_at = clock d, completed_at = Suc (clock d)\<rparr>
          (pipeline_runs d))"
proof -
  let ?aps = "filter (\<lambda>a. a \<in> set get_mapped_airports) (remdups (map airport_code (airports d)))"
  show ?thesis
  proof (cases "?aps = [] \<or> date_dim d = []")
    case True
    then have "load_weather E d = (tick d, NothingToLoad)"
      by (auto simp: load_weather_def Let_def tick_def)
    then show ?thesis by blast
  next
    case False
    let ?data = "generate_weather_data E ?aps (map date_id (date_dim d))"
    obtain tbl l s where i: "insert_weather E (set (map obs_key (weather_observations d))) ?data
           (weather_observations d, 0, 0) = (tbl, l, s)"
      by (cases "insert_weather E (set (map obs_key (weather_observations d))) ?data
           (weather_observations d, 0, 0)") auto
    from False have a: "?aps \<noteq> []" "date_dim d \<noteq> []" by blast+
    note e = load_weather_eval[OF refl a refl i]
    have "weather_observations (fst (load_weather E d)) = tbl"
      "snd (load_weather E d) = WeatherLoaded l s"
      "pipeline_runs (fst (load_weather E d)) = upsert_run_basic
          \<lparr>file_name = ''iem_hourly_weather'', source = ''weather'',
           rows_processed = length ?data, rows_loaded = l, rows_rejected = 0,
           status = ''completed'', started_at = clock d, completed_at = Suc (clock d)\<rparr>
          (pipeline_runs d)"
      unfolding e by (simp_all add: tick_def)
    with i show ?thesis by blast
  qed
qed


lemma load_weather_first: "load_weather E0 db_init = (db_w1, WeatherLoaded 1 0)"
  by code_simp

lemma load_weather_second: "load_weather E0 db_w1 = (db_w2, WeatherLoaded 0 1)"
  by code_simp











section \<open>The counters of a ledger row\<close>

lemma chunks_concat: "0 < n \<Longrightarrow> concat (chunks n xs) = xs"
proof (induction n xs rule: chunks.induct)
  case (1 n xs)
  show ?case
  proof (cases "xs = []")
    case True then show ?thesis by (subst chunks.simps) simp
  next
    case False
    with 1 have "concat (chunks n (drop n xs)) = drop n xs" by simp
    with False 1(2) show ?thesis by (subst chunks.simps) simp
  qed
qed

lemma validate_chunk_length:
  "validate_chunk B S fname c = Inr (vs, rs) \<Longrightarrow> length vs + length rs = length c"
  using validate_chunk_split by blast

lemma process_chunks_counts:
  "process_chunks E B S fname k cs (d, l, r) = (d', Inr (l', r')) \<Longrightarrow>
   l' + r' = l + r + length (concat cs)"
proof (induction cs arbitrary: d l r k)
  case Nil then show ?case by simp
next
  case (Cons c cs)
  show ?case
  proof (cases "validate_chunk B S fname c")
    case (Inl e) with Cons.prems show ?thesis by simp
  next
    case (Inr p)
    obtain vs rs where p: "p = (vs, rs)" by (cases p)
    show ?thesis
    proof (cases "write_chunk E fname k vs rs d")
      case (Inl e) with Cons.prems Inr p show ?thesis by simp
    next
      case w: (Inr d2)
      with Cons.prems Inr p have
        "process_chunks E B S fname (Suc k) cs (d2, l + length vs, r + length rs) = (d', Inr (l', r'))"
        by simp
      from Cons.IH[OF this] validate_chunk_length[OF Inr[unfolded p]] show ?thesis by simp
    qed
  qed
qed

lemma upsert_flights_fresh:
  "run_key new \<notin> set (map run_key tbl) \<Longrightarrow> r \<in> set (upsert_run_flights new tbl) \<Longrightarrow>
   run_key r = run_key new \<Longrightarrow> r = new"
proof -
  assume a: "run_key new \<notin> set (map run_key tbl)" and b: "r \<in> set (upsert_run_flights new tbl)"
    and c: "run_key r = run_key new"
  from a b have "r \<in> set tbl \<or> r = new" by (auto simp: upsert_run_flights_def)
  moreover have "r \<notin> set tbl"
  proof
    assume "r \<in> set tbl"
    then have "run_key r \<in> set (map run_key tbl)" by simp
    with a c show False by simp
  qed
  ultimately show ?thesis by blast
qed

lemma upsert_basic_fresh:
  "run_key new \<notin> set (map run_key tbl) \<Longrightarrow> r \<in> set (upsert_run_basic new tbl) \<Longrightarrow>
   run_key r = run_key new \<Longrightarrow> r = new"
proof -
  assume a: "run_key new \<notin> set (map run_key tbl)" and b: "r \<in> set (upsert_run_basic new tbl)"
    and c: "run_key r = run_key new"
  from a b have "r \<in> set tbl \<or> r = new" by (auto simp: upsert_run_basic_def)
  moreover have "r \<notin> set tbl"
  proof
    assume "r \<in> set tbl"
    then have "run_key r \<in> set (map run_key tbl)" by simp
    with a c show False by simp
  qed
  ultimately show ?thesis by blast
qed

lemma process_file_row:
  assumes n: "0 < n" and pf: "process_file E B n key (S, d) = ((S', d'), Inr (l, r))"
  shows "\<exists>finished. pipeline_runs d' = upsert_run_flights
        \<lparr>file_name = basename key, source = ''flights'', rows_processed = l + r, rows_loaded = l,
         rows_rejected = r, status = ''completed'', started_at = clock d,
         completed_at = finished\<rparr> (pipeline_runs d)"
proof (cases "s3_get_csv E key")
  case (Inl e)
  with pf show ?thesis by (simp add: process_file_def Let_def)
next
  case (Inr df)
  obtain d1 r1 where pd: "prepare_dates E df S (tick d) = (d1, r1)"
    by (cases "prepare_dates E df S (tick d)") auto
  from prepare_dates_frame[OF pd] have f1: "pipeline_runs d1 = pipeline_runs d"
    by (simp add: tick_def)
  show ?thesis
  proof (cases r1)
    case (Inl e)
    with pf Inr pd show ?thesis by (simp add: process_file_def Let_def)
  next
    case S1: (Inr S1)
    obtain d2 r2 where pc: "process_chunks E B S1 (basename key) 1
        (chunks n (enumerate_rows (df_rows df))) (d1, 0, 0) = (d2, r2)"
      by (cases "process_chunks E B S1 (basename key) 1
        (chunks n (enumerate_rows (df_rows df))) (d1, 0, 0)") auto
    from process_chunks_frame[OF pc] have f2: "pipeline_runs d2 = pipeline_runs d1" by blast
    from pf Inr pd S1 pc have fin:
      "finish_file (basename key) (clock d) (length (df_rows df)) S1 (d2, r2) = ((S', d'), Inr (l, r))"
      by (simp add: process_file_def Let_def)
    show ?thesis
    proof (cases r2)
      case (Inl e)
      with fin show ?thesis by (simp add: finish_file_def)
    next
      case lr: (Inr lr)
      obtain l2 r2' where lr2: "lr = (l2, r2')" by (cases lr)
      from fin lr lr2 have eq: "l2 = l" "r2' = r"
        and d': "d' = tick (d2\<lparr>pipeline_runs := upsert_run_flights
              \<lparr>file_name = basename key, source = ''flights'',
               rows_processed = length (df_rows df), rows_loaded = l,
               rows_rejected = r, status = ''completed'',
               started_at = clock d, completed_at = clock d2\<rparr> (pipeline_runs d2)\<rparr>)"
        by (auto simp: finish_file_def)
      from pc lr lr2 eq have "process_chunks E B S1 (basename key) 1
        (chunks n (enumerate_rows (df_rows df))) (d1, 0, 0) = (d2, Inr (l, r))" by simp
      from process_chunks_counts[OF this] have "l + r = length (df_rows df)"
        by (simp add: chunks_concat[OF n] enumerate_rows_def)
      with d' f1 f2 have "pipeline_runs d' = upsert_run_flights
        \<lparr>file_name = basename key, source = ''flights'', rows_processed = l + r, rows_loaded = l,
         rows_rejected = r, status = ''completed'', started_at = clock d,
         completed_at = clock d2\<rparr> (pipeline_runs d)" by (simp add: tick_def)
      then show ?thesis by blast
    qed
  qed
qed
lemma load_airports_row:
  assumes g: "s3_get_airports E = Inr lines" and la: "load_airports E B d = (d', Inr k)"
  shows "\<exists>started finished. pipeline_runs d' = upsert_run_basic
        \<lparr>file_name = ''airports.dat'', source = ''airports'', rows_processed = k, rows_loaded = k,
         rows_rejected = 0, status = ''completed'', started_at = started,
         completed_at = finished\<rparr> (pipeline_runs d)"
proof -
  let ?df = "drop_duplicates [] (filter valid_iata lines)"
  from load_airports_unfold[OF g la] obtain tbl where
    ins: "insert_airports B ?df (airports d, 0) = Inr (tbl, k)" by blast
  from insert_airports_count[OF ins] have k: "length ?df = k" by simp
  from load_airports_eval[OF g refl ins] la
  have "pipeline_runs d' = upsert_run_basic
        \<lparr>file_name = ''airports.dat'', source = ''airports'', rows_processed = k, rows_loaded = k,
         rows_rejected = 0, status = ''completed'', started_at = clock d,
         completed_at = Suc (clock d)\<rparr> (pipeline_runs d)"
    by (auto simp: k)
  then show ?thesis by blast
qed

lemma load_weather_row:
  assumes lw: "load_weather E d = (d', WeatherLoaded l s)"
  shows "pipeline_runs d' = upsert_run_basic
        \<lparr>file_name = ''iem_hourly_weather'', source = ''weather'', rows_processed = l + s,
         rows_loaded = l, rows_rejected = 0, status = ''completed'', started_at = clock d,
         completed_at = Suc (clock d)\<rparr> (pipeline_runs d)"
  using load_weather_cases[of E d]
proof
  assume "load_weather E d = (tick d, NothingToLoad)"
  with lw show ?thesis by simp
next
  assume "\<exists>data tbl l s.
      insert_weather E (set (map obs_key (weather_observations d))) data
           (weather_observations d, 0, 0) = (tbl, l, s) \<and>
      weather_observations (fst (load_weather E d)) = tbl \<and>
      snd (load_weather E d) = WeatherLoaded l s \<and>
      pipeline_runs (fst (load_weather E d)) = upsert_run_basic
          \<lparr>file_name = ''iem_hourly_weather'', source = ''weather'',
           rows_processed = length data, rows_loaded = l, rows_rejected = 0,
           status = ''completed'', started_at = clock d, completed_at = Suc (clock d)\<rparr>
          (pipeline_runs d)"
  then obtain data tbl l2 s2 where
    i: "insert_weather E (set (map obs_key (weather_observations d))) data
           (weather_observations d, 0, 0) = (tbl, l2, s2)"
    and r: "snd (load_weather E d) = WeatherLoaded l2 s2"
    and p: "pipeline_runs (fst (load_weather E d)) = upsert_run_basic
          \<lparr>file_name = ''iem_hourly_weather'', source = ''weather'',
           rows_processed = length data, rows_loaded = l2, rows_rejected = 0,
           status = ''completed'', started_at = clock d, completed_at = Suc (clock d)\<rparr>
          (pipeline_runs d)" by blast
  from r lw have e: "l2 = l" "s2 = s" by simp_all
  from insert_weather_counts[OF i] have "l2 + s2 = length data"
    using sum_length_filter_compl[of "\<lambda>ob. obs_key ob \<in> set (map obs_key (weather_observations d))" data]
    by simp
  with p e lw show ?thesis by simp
qed

text \<open>
  C3. A ledger row written with status \<open>completed\<close> satisfies rows\_loaded +
  rows\_rejected = rows\_processed.  This holds for the row \<open>load_flights\<close> and
  \<open>load_airports\<close> insert for a (file\_name, source) pair that has no ledger row yet.
  The row \<open>load_weather\<close> inserts counts the observations it skipped in
  rows\_processed and not in rows\_rejected: there rows\_loaded + skipped =
  rows\_processed and rows\_rejected = 0.
\<close>

theorem ledger_counts_on_first_write:
  "(0 < n \<and> process_file E B n key (S, d) = ((S', d'), Inr (l, r)) \<and>
      (basename key, ''flights'') \<notin> set (map run_key (pipeline_runs d)) \<longrightarrow>
      (\<exists>row \<in> set (pipeline_runs d'). run_key row = (basename key, ''flights'')) \<and>
      (\<forall>row \<in> set (pipeline_runs d'). run_key row = (basename key, ''flights'') \<longrightarrow>
          status row = ''completed'' \<and> rows_loaded row = l \<and> rows_rejected row = r \<and>
          rows_loaded row + rows_rejected row = rows_processed row))
   \<and> (s3_get_airports E = Inr lines \<and> load_airports E B da = (da', Inr k) \<and>
      (''airports.dat'', ''airports'') \<notin> set (map run_key (pipeline_runs da)) \<longrightarrow>
      (\<exists>row \<in> set (pipeline_runs da'). run_key row = (''airports.dat'', ''airports'')) \<and>
      (\<forall>row \<in> set (pipeline_runs da'). run_key row = (''airports.dat'', ''airports'') \<longrightarrow>
          status row = ''completed'' \<and> rows_loaded row = k \<and> rows_rejected row = 0 \<and>
          rows_loaded row + rows_rejected row = rows_processed row))
   \<and> (load_weather E dw = (dw', WeatherLoaded lw sw) \<and>
      (''iem_hourly_weather'', ''weather'') \<notin> set (map run_key (pipeline_runs dw)) \<longrightarrow>
      (\<exists>row \<in> set (pipeline_runs dw'). run_key row = (''iem_hourly_weather'', ''weather'')) \<and>
      (\<forall>row \<in> set (pipeline_runs dw'). run_key row = (''iem_hourly_weather'', ''weather'') \<longrightarrow>
          status row = ''completed'' \<and> rows_loaded row = lw \<and> rows_rejected row = 0 \<and>
          rows_loaded row + sw = rows_processed row))"
proof (intro conjI impI; (elim conjE)?)
  assume n: "0 < n" and pf: "process_file E B n key (S, d) = ((S', d'), Inr (l, r))"
    and fresh: "(basename key, ''flights'') \<notin> set (map run_key (pipeline_runs d))"
  from process_file_row[OF n pf] obtain fin where
    p: "pipeline_runs d' = upsert_run_flights
        \<lparr>file_name = basename key, source = ''flights'', rows_processed = l + r, rows_loaded = l,
         rows_rejected = r, status = ''completed'', started_at = clock d,
         completed_at = fin\<rparr> (pipeline_runs d)" (is "_ = upsert_run_flights ?new _") by blast
  have k: "run_key ?new = (basename key, ''flights'')" by (simp add: run_key_def)
  from fresh have u: "upsert_run_flights ?new (pipeline_runs d) = pipeline_runs d @ [?new]"
    by (simp add: upsert_run_flights_def k)
  show "\<exists>row \<in> set (pipeline_runs d'). run_key row = (basename key, ''flights'')"
    unfolding p u using k by auto
  show "\<forall>row \<in> set (pipeline_runs d'). run_key row = (basename key, ''flights'') \<longrightarrow>
          status row = ''completed'' \<and> rows_loaded row = l \<and> rows_rejected row = r \<and>
          rows_loaded row + rows_rejected row = rows_processed row"
  proof (intro ballI impI)
    fix row assume "row \<in> set (pipeline_runs d')" "run_key row = (basename key, ''flights'')"
    with upsert_flights_fresh[of ?new "pipeline_runs d" row] fresh k p have "row = ?new" by simp
    then show "status row = ''completed'' \<and> rows_loaded row = l \<and> rows_rejected row = r \<and>
          rows_loaded row + rows_rejected row = rows_processed row" by simp
  qed
next
  assume g: "s3_get_airports E = Inr lines" and la: "load_airports E B da = (da', Inr k)"
    and fresh: "(''airports.dat'', ''airports'') \<notin> set (map run_key (pipeline_runs da))"
  from load_airports_row[OF g la] obtain st fin where
    p: "pipeline_runs da' = upsert_run_basic
        \<lparr>file_name = ''airports.dat'', source = ''airports'', rows_processed = k, rows_loaded = k,
         rows_rejected = 0, status = ''completed'', started_at = st,
         completed_at = fin\<rparr> (pipeline_runs da)" (is "_ = upsert_run_basic ?new _") by blast
  have kk: "run_key ?new = (''airports.dat'', ''airports'')" by (simp add: run_key_def)
  from fresh have u: "upsert_run_basic ?new (pipeline_runs da) = pipeline_runs da @ [?new]"
    by (simp add: upsert_run_basic_def kk)
  show "\<exists>row \<in> set (pipeline_runs da'). run_key row = (''airports.dat'', ''airports'')"
    unfolding p u using kk by auto
  show "\<forall>row \<in> set (pipeline_runs da'). run_key row = (''airports.dat'', ''airports'') \<longrightarrow>
          status row = ''completed'' \<and> rows_loaded row = k \<and> rows_rejected row = 0 \<and>
          rows_loaded row + rows_rejected row = rows_processed row"
  proof (intro ballI impI)
    fix row assume "row \<in> set (pipeline_runs da')" "run_key row = (''airports.dat'', ''airports'')"
    with upsert_basic_fresh[of ?new "pipeline_runs da" row] fresh kk p have "row = ?new" by simp
    then show "status row = ''completed'' \<and> rows_loaded row = k \<and> rows_rejected row = 0 \<and>
          rows_loaded row + rows_rejected row = rows_processed row" by simp
  qed
next
  assume lw: "load_weather E dw = (dw', WeatherLoaded lw sw)"
    and fresh: "(''iem_hourly_weather'', ''weather'') \<notin> set (map run_key (pipeline_runs dw))"
  note p = load_weather_row[OF lw]
  let ?new = "\<lparr>file_name = ''iem_hourly_weather'', source = ''weather'', rows_processed = lw + sw,
         rows_loaded = lw, rows_rejected = 0, status = ''completed'', started_at = clock dw,
         completed_at = Suc (clock dw)\<rparr>"
  have kk: "run_key ?new = (''iem_hourly_weather'', ''weather'')" by (simp add: run_key_def)
  from fresh have u: "upsert_run_basic ?new (pipeline_runs dw) = pipeline_runs dw @ [?new]"
    by (simp add: upsert_run_basic_def kk)
  show "\<exists>row \<in> set (pipeline_runs dw'). run_key row = (''iem_hourly_weather'', ''weather'')"
    unfolding p u using kk by auto
  show "\<forall>row \<in> set (pipeline_runs dw'). run_key row = (''iem_hourly_weather'', ''weather'') \<longrightarrow>
          status row = ''completed'' \<and> rows_loaded row = lw \<and> rows_rejected row = 0 \<and>
          rows_loaded row + sw = rows_processed row"
  proof (intro ballI impI)
    fix row assume "row \<in> set (pipeline_runs dw')" "run_key row = (''iem_hourly_weather'', ''weather'')"
    with upsert_basic_fresh[of ?new "pipeline_runs dw" row] fresh kk p have "row = ?new" by simp
    then show "status row = ''completed'' \<and> rows_loaded row = lw \<and> rows_rejected row = 0 \<and>
          rows_loaded row + sw = rows_processed row" by simp
  qed
qed

theorem ledger_counts_on_first_write_witness:
  "process_file E0 B0 2 ''raw/jan.csv'' (S0, db_init) = ((S0, db_loaded), Inr (1, 1))
   \<and> (basename ''raw/jan.csv'', ''flights'') \<notin> set (map run_key (pipeline_runs db_init))
   \<and> (\<exists>row \<in> set (pipeline_runs db_loaded). run_key row = (basename ''raw/jan.csv'', ''flights'') \<and>
         status row = ''completed'' \<and> rows_loaded row + rows_rejected row = rows_processed row)
   \<and> s3_get_airports E0 = Inr airport_lines0
   \<and> load_airports E0 B0 db_empty = (db_air, Inr 1)
   \<and> (\<exists>row \<in> set (pipeline_runs db_air). run_key row = (''airports.dat'', ''airports'') \<and>
         status row = ''completed'' \<and> rows_loaded row + rows_rejected row = rows_processed row)
   \<and> load_weather E0 db_init = (db_w1, WeatherLoaded 1 0)
   \<and> (\<exists>row \<in> set (pipeline_runs db_w1). run_key row = (''iem_hourly_weather'', ''weather'') \<and>
         status row = ''completed'' \<and> rows_loaded row + 0 = rows_processed row)"
proof -
  have pf: "process_file E0 B0 2 ''raw/jan.csv'' (S0, db_init) = ((S0, db_loaded), Inr (1, 1))"
    by (rule process_file_sample) simp
  have f1: "(basename ''raw/jan.csv'', ''flights'') \<notin> set (map run_key (pipeline_runs db_init))"
    by (simp add: db_init_def db_empty_def)
  have g: "s3_get_airports E0 = Inr airport_lines0" by (simp add: E0_def)
  have f2: "(''airports.dat'', ''airports'') \<notin> set (map run_key (pipeline_runs db_empty))"
    by (simp add: db_empty_def)
  have f3: "(''iem_hourly_weather'', ''weather'') \<notin> set (map run_key (pipeline_runs db_init))"
    by (simp add: db_init_def db_empty_def)
  note t = ledger_counts_on_first_write[where n = 2 and E = E0 and B = B0
      and key = "''raw/jan.csv''" and S = S0 and d = db_init and S' = S0 and d' = db_loaded
      and l = 1 and r = 1 and lines = airport_lines0 and da = db_empty and da' = db_air and k = 1
      and dw = db_init and dw' = db_w1 and lw = 1 and sw = 0]
  from t[THEN conjunct1] pf f1
  have c1: "\<exists>row \<in> set (pipeline_runs db_loaded). run_key row = (basename ''raw/jan.csv'', ''flights'') \<and>
         status row = ''completed'' \<and> rows_loaded row + rows_rejected row = rows_processed row"
    by (simp del: One_nat_def) blast
  from t[THEN conjunct2, THEN conjunct1] g load_airports_sample f2
  have c2: "\<exists>row \<in> set (pipeline_runs db_air). run_key row = (''airports.dat'', ''airports'') \<and>
         status row = ''completed'' \<and> rows_loaded row + rows_rejected row = rows_processed row"
    by (simp del: One_nat_def) blast
  from t[THEN conjunct2, THEN conjunct2] load_weather_first f3
  have c3: "\<exists>row \<in> set (pipeline_runs db_w1). run_key row = (''iem_hourly_weather'', ''weather'') \<and>
         status row = ''completed'' \<and> rows_loaded row + 0 = rows_processed row"
    by (simp del: One_nat_def) blast
  from pf f1 c1 g load_airports_sample c2 load_weather_first c3 show ?thesis by blast
qed

theorem weather_ledger_counts_differ:
  "load_weather E0 db_init = (db_w1, WeatherLoaded 1 0)
   \<and> load_weather E0 db_w1 = (db_w2, WeatherLoaded 0 1)
   \<and> (\<exists>row \<in> set (pipeline_runs db_w2). source row = ''weather'' \<and> status row = ''completed'' \<and>
         rows_loaded row + rows_rejected row \<noteq> rows_processed row)"
proof -
  have "\<exists>row \<in> set (pipeline_runs db_w2). source row = ''weather'' \<and> status row = ''completed'' \<and>
         rows_loaded row + rows_rejected row \<noteq> rows_processed row"
    by (simp add: db_w2_def)
  with load_weather_first load_weather_second show ?thesis by blast
qed

section \<open>The rejection rate at the quality gate\<close>

lemma gate_all_rejected: "run_quality_checks (db_gate 0 5) = Inr (9, 0)"
  by code_simp

lemma gate_five_percent: "run_quality_checks (db_gate 95 5) = Inl (QualityChecksFailed 1)"
  by code_simp

lemma gate_four_percent: "run_quality_checks (db_gate 96 4) = Inr (10, 0)"
  by code_simp

lemma latest_gate:
  "latest_run (filter (\<lambda>r. source r = ''flights'') (pipeline_runs (db_gate l r))) =
     Some \<lparr>file_name = ''feb.csv'', source = ''flights'', rows_processed = l + r, rows_loaded = l,
         rows_rejected = r, status = ''completed'', started_at = 2, completed_at = 3\<rparr>"
  by (simp add: db_gate_def)

lemma rate_95_5: "reject_rate 95 5 = 5"
  by (simp add: reject_rate_def)

lemma rate_0_5: "reject_rate 0 5 = 100"
  by (simp add: reject_rate_def)

lemma others_pass_counts:
  assumes "airports d \<noteq> []" "carriers d \<noteq> []" "flights d \<noteq> []" "orphans 4 d = 0"
    "orphans 7 d = 0" "length (filter bad_delay (flights d)) = 0"
    "weather_observations d \<noteq> []" "weather_airports d" "weather_dates d"
  shows "quality_counts d =
     (Suc (Suc (Suc (fst (rejection_check d (6, 0))))), snd (rejection_check d (6, 0)))"
  using assms by (simp add: quality_counts_def check_def eval_nat_numeral)

lemma check_failed_mono: "snd pf \<le> snd (check ok pf)"
  by (simp add: check_def)

lemma quality_counts_failed:
  "snd (rejection_check d (check (length (filter bad_delay (flights d)) = 0)
     (check (orphans 7 d = 0)
     (check (orphans 4 d = 0)
     (check (flights d \<noteq> [])
     (check (carriers d \<noteq> [])
     (check (airports d \<noteq> []) (0, 0)))))))) \<le> snd (quality_counts d)"
  unfolding quality_counts_def
  by (meson check_failed_mono order_trans)

lemma gate_others_pass:
  "airports (db_gate l r) \<noteq> [] \<and> carriers (db_gate l r) \<noteq> [] \<and> flights (db_gate l r) \<noteq> [] \<and>
   orphans 4 (db_gate l r) = 0 \<and> orphans 7 (db_gate l r) = 0 \<and>
   length (filter bad_delay (flights (db_gate l r))) = 0 \<and>
   weather_observations (db_gate l r) \<noteq> [] \<and> weather_airports (db_gate l r) \<and>
   weather_dates (db_gate l r)"
  by (simp add: db_gate_def db_init_def db_empty_def orphans_def flight_ok_def bad_delay_def
      weather_airports_def weather_dates_def obs_atl_def date_id_derive iso_sample)

text \<open>
  C4. When the most recent flights ledger row has rows\_loaded > 0: a rejection rate of
  5% or more makes \<open>run_quality_checks\<close> record a failed check and raise, and a rate
  strictly below 5% with every other check passing lets it return; 95 loaded and 5
  rejected is a rate of exactly 5 and fails.  When rows\_loaded = 0 the rate is not
  checked: check 7 counts neither as passed nor as failed, whatever the other checks say.
\<close>

theorem rejection_rate_gate:
  assumes "latest_run (filter (\<lambda>r. source r = ''flights'') (pipeline_runs d)) = Some r"
  shows "(0 < rows_loaded r \<and> 5 \<le> reject_rate (rows_loaded r) (rows_rejected r) \<longrightarrow>
            (\<exists>e. run_quality_checks d = Inl e) \<and> 0 < snd (quality_counts d))
     \<and> (0 < rows_loaded r \<and> reject_rate (rows_loaded r) (rows_rejected r) < 5 \<and>
          airports d \<noteq> [] \<and> carriers d \<noteq> [] \<and> flights d \<noteq> [] \<and> orphans 4 d = 0 \<and>
          orphans 7 d = 0 \<and> length (filter bad_delay (flights d)) = 0 \<and>
          weather_observations d \<noteq> [] \<and> weather_airports d \<and> weather_dates d \<longrightarrow>
            run_quality_checks d = Inr (10, 0))
     \<and> (rows_loaded r = 0 \<and>
          airports d \<noteq> [] \<and> carriers d \<noteq> [] \<and> flights d \<noteq> [] \<and> orphans 4 d = 0 \<and>
          orphans 7 d = 0 \<and> length (filter bad_delay (flights d)) = 0 \<and>
          weather_observations d \<noteq> [] \<and> weather_airports d \<and> weather_dates d \<longrightarrow>
            run_quality_checks d = Inr (9, 0))
     \<and> reject_rate 95 5 = 5
     \<and> (rows_loaded r = 0 \<longrightarrow> rejection_check d pf = pf)"
proof (intro conjI impI; (elim conjE)?)
  assume l: "0 < rows_loaded r" and rate: "5 \<le> reject_rate (rows_loaded r) (rows_rejected r)"
  have "\<And>pf. 0 < snd (rejection_check d pf)"
    using assms l rate by (simp add: rejection_check_def check_def)
  with quality_counts_failed[of d] show f: "0 < snd (quality_counts d)"
    by (meson less_le_trans)
  then show "\<exists>e. run_quality_checks d = Inl e"
    by (cases "quality_counts d") (simp add: run_quality_checks_def)
next
  assume l: "0 < rows_loaded r" and rate: "reject_rate (rows_loaded r) (rows_rejected r) < 5"
    and o: "airports d \<noteq> []" "carriers d \<noteq> []" "flights d \<noteq> []" "orphans 4 d = 0"
    "orphans 7 d = 0" "length (filter bad_delay (flights d)) = 0"
    "weather_observations d \<noteq> []" "weather_airports d" "weather_dates d"
  have "rejection_check d (6, 0) = (7, 0)"
    using assms l rate by (simp add: rejection_check_def check_def)
  with others_pass_counts[OF o] have "quality_counts d = (10, 0)" by simp
  with o(3) show "run_quality_checks d = Inr (10, 0)" by (simp add: run_quality_checks_def)
next
  assume l: "rows_loaded r = 0"
    and o: "airports d \<noteq> []" "carriers d \<noteq> []" "flights d \<noteq> []" "orphans 4 d = 0"
    "orphans 7 d = 0" "length (filter bad_delay (flights d)) = 0"
    "weather_observations d \<noteq> []" "weather_airports d" "weather_dates d"
  have "rejection_check d (6, 0) = (6, 0)"
    using assms l by (simp add: rejection_check_def)
  with others_pass_counts[OF o] have "quality_counts d = (9, 0)" by simp
  with o(3) show "run_quality_checks d = Inr (9, 0)" by (simp add: run_quality_checks_def)
next
  show "reject_rate 95 5 = 5" by (rule rate_95_5)
next
  assume "rows_loaded r = 0"
  with assms show "rejection_check d pf = pf" by (simp add: rejection_check_def)
qed

theorem rejection_rate_gate_witness:
  "run_quality_checks (db_gate 95 5) = Inl (QualityChecksFailed 1)
   \<and> (\<exists>e. run_quality_checks (db_gate 95 5) = Inl e)
   \<and> reject_rate 95 5 = 5
   \<and> reject_rate 96 4 < 5
   \<and> run_quality_checks (db_gate 96 4) = Inr (10, 0)
   \<and> run_quality_checks (db_gate 0 5) = Inr (9, 0)"
proof -
  note t95 = rejection_rate_gate[OF latest_gate[of 95 5]]
  have "\<exists>e. run_quality_checks (db_gate 95 5) = Inl e"
    using t95[THEN conjunct1] by (simp add: rate_95_5)
  moreover have r4: "reject_rate 96 4 < 5" by (simp add: reject_rate_def)
  moreover have "run_quality_checks (db_gate 96 4) = Inr (10, 0)"
    using rejection_rate_gate[OF latest_gate[of 96 4], THEN conjunct2, THEN conjunct1]
      gate_others_pass[of 96 4] r4 by simp
  moreover have "run_quality_checks (db_gate 0 5) = Inr (9, 0)"
    using rejection_rate_gate[OF latest_gate[of 0 5], THEN conjunct2, THEN conjunct2, THEN conjunct1]
      gate_others_pass[of 0 5] by simp
  ultimately show ?thesis using gate_five_percent rate_95_5 by blast
qed

theorem all_rejected_gate_passes:
  "latest_run (filter (\<lambda>r. source r = ''flights'') (pipeline_runs (db_gate 0 5))) =
     Some \<lparr>file_name = ''feb.csv'', source = ''flights'', rows_processed = 0 + 5, rows_loaded = 0,
         rows_rejected = 5, status = ''completed'', started_at = 2, completed_at = 3\<rparr>
   \<and> reject_rate 0 5 = 100
   \<and> 5 \<le> reject_rate 0 5
   \<and> run_quality_checks (db_gate 0 5) = Inr (9, 0)
   \<and> \<not> (\<exists>e. run_quality_checks (db_gate 0 5) = Inl e)"
  using latest_gate[of 0 5] rate_0_5 gate_all_rejected by simp

end
